theory Spec2Isabelle
  imports Main "HOL-Library.AList"
begin

section \<open>JavaScript string primitives used by the scripts\<close>

text \<open>
  Strings are character lists. The receiver of the JavaScript method is the first argument:
  \<open>s.startsWith(p)\<close> is \<open>startsWith s p\<close>.
\<close>

definition startsWith :: "string \<Rightarrow> string \<Rightarrow> bool" where
  "startsWith s p = (take (length p) s = p)"

definition endsWith :: "string \<Rightarrow> string \<Rightarrow> bool" where
  "endsWith s p = (length p \<le> length s \<and> drop (length s - length p) s = p)"

fun js_includes :: "string \<Rightarrow> string \<Rightarrow> bool" where
  "js_includes [] p = (p = [])"
| "js_includes (c # cs) p = (startsWith (c # cs) p \<or> js_includes cs p)"

text \<open>\<open>s.split('/').pop()\<close>: the text after the last slash (all of \<open>s\<close> without one).\<close>

definition lastSegment :: "string \<Rightarrow> string" where
  "lastSegment s = rev (takeWhile (\<lambda>c. c \<noteq> CHR ''/'') (rev s))"

text \<open>\<open>s.split('?')[0]\<close>: the text before the first question mark.\<close>

definition beforeQuery :: "string \<Rightarrow> string" where
  "beforeQuery s = takeWhile (\<lambda>c. c \<noteq> CHR ''?'') s"

text \<open>JavaScript truthiness of a value that is a string, \<open>null\<close> or \<open>undefined\<close>.\<close>

fun truthy :: "string option \<Rightarrow> bool" where
  "truthy None = False"
| "truthy (Some s) = (s \<noteq> [])"

section \<open>The world the scripts act on\<close>

text \<open>
  A file is addressed by its directory and its name: \<open>path.join(dir, name)\<close> is the pair
  \<open>(dir, name)\<close>, for names that hold no path separator. A file holds bytes of any
  kind (\<open>Binary\<close>), the text that \<open>JSON.stringify\<close> gives for an object of strings
  (\<open>MappingJson\<close>; the order of the entries in the text is not modelled), or the text it
  gives for an array (\<open>ArrayJson\<close>, whatever the elements).
\<close>

type_synonym path = "string \<times> string"

datatype content = Binary string | MappingJson "(string \<times> string) list" | ArrayJson

text \<open>
  What \<open>JSON.parse\<close> returns: an object (kept as its entries, their values strings), a
  primitive (\<open>null\<close>, a number, a string, a boolean) or an array.
\<close>

datatype jsvalue = JObject "(string \<times> string) list" | JPrimitive | JArray

text \<open>
  The closures registered with \<open>page.on('response', ...)\<close>: the \<open>responseHandler\<close> of
  index.js captures \<open>packDir\<close> and \<open>iconSlug\<close>, the \<open>handleResponse\<close> of find-items.js
  captures \<open>itemSlug\<close> (and its own \<open>presignedUrl\<close> variable).
\<close>

datatype listener = ResponseHandler string string | HandleResponse string

fun listener_slug :: "listener \<Rightarrow> string" where
  "listener_slug (ResponseHandler packDir iconSlug) = iconSlug"
| "listener_slug (HandleResponse itemSlug) = itemSlug"

datatype event =
    ListenerOn listener
  | ListenerOff listener
  | Goto string
  | HttpGet string
  | FileWrite path

record world =
  files :: "(path \<times> content) list"
  listeners :: "listener list"
  trace :: "event list"
  slugToUuidMap :: "(string \<times> string) list"

text \<open>
  What the outside answers. \<open>axios_get\<close> is the binary fetch of a URL (\<open>None\<close>: the
  request throws, on a network error, a timeout or a non-2xx status); \<open>writable\<close> tells
  whether \<open>fs.writeFile\<close> to a path succeeds; \<open>json_parse\<close> is \<open>JSON.parse\<close> on
  the bytes of a file (\<open>None\<close>: it throws).
\<close>

record env =
  axios_get :: "string \<Rightarrow> string option"
  writable :: "path \<Rightarrow> bool"
  json_parse :: "string \<Rightarrow> jsvalue option"

text \<open>
  An intercepted network response: its URL and what \<open>response.json()\<close> gives
  (\<open>None\<close>: it throws). Of the parsed body only the two fields the scripts read are kept;
  a body that is \<open>null\<close> or lacks a field has \<open>None\<close> there.
\<close>

record body =
  presignedUrl :: "string option"
  contentType :: "string option"

record response =
  r_url :: string
  r_json :: "body option"

text \<open>
  The outcome of one resolution navigation: whether \<open>page.goto\<close> returns or throws (a
  timeout), the responses that arrive while it is pending, whether the following
  \<open>page.waitForNavigation\<close> of find-items.js returns, the responses during it, and the
  responses during the fixed sleep after it.
\<close>

record nav =
  goto_ok :: bool
  goto_responses :: "response list"
  redirect_ok :: bool
  redirect_responses :: "response list"
  settle_responses :: "response list"

definition readdirSync :: "string \<Rightarrow> world \<Rightarrow> string list" where
  "readdirSync dir w = map (\<lambda>e. snd (fst e)) (filter (\<lambda>e. fst (fst e) = dir) (files w))"

definition page_on :: "listener \<Rightarrow> world \<Rightarrow> world" where
  "page_on l w = w\<lparr>listeners := listeners w @ [l], trace := trace w @ [ListenerOn l]\<rparr>"

text \<open>
  Each closure is a function object of its own, and the one a loop body removes is the one
  it has just registered: of the registered listeners with the same captured values, the
  one registered last.
\<close>

definition remove_last :: "listener \<Rightarrow> listener list \<Rightarrow> listener list" where
  "remove_last l ls = rev (remove1 l (rev ls))"

definition page_removeListener :: "listener \<Rightarrow> world \<Rightarrow> world" where
  "page_removeListener l w =
     w\<lparr>listeners := remove_last l (listeners w), trace := trace w @ [ListenerOff l]\<rparr>"

definition trigger_url :: "string \<Rightarrow> string" where
  "trigger_url slug = ''https://pixcap.com/design/create?slug='' @ slug"

definition log_event :: "event \<Rightarrow> world \<Rightarrow> world" where
  "log_event e w = w\<lparr>trace := trace w @ [e]\<rparr>"

section \<open>index.js: the pack loop\<close>

definition OUTPUT_DIR :: string where
  "OUTPUT_DIR = ''glb''"

text \<open>The dedup test of index.js, lines 344-347 (and 208-211).\<close>

definition fileExists :: "string \<Rightarrow> string list \<Rightarrow> bool" where
  "fileExists iconSlug possibleFilenames =
     list_ex (\<lambda>filename. startsWith filename (iconSlug @ ''__'') \<and> endsWith filename ''.glb'')
       possibleFilenames"

text \<open>
  \<open>responseHandler\<close>, index.js lines 355-391 (and 219-255). The handler is run to its end
  when the response arrives. The mapping entry is set before the binary is fetched. The
  test \<open>responseData && responseData.presignedUrl\<close> fails on a missing, \<open>null\<close> or
  empty signed URL.
\<close>

definition responseHandler :: "env \<Rightarrow> string \<Rightarrow> string \<Rightarrow> response \<Rightarrow> world \<Rightarrow> world" where
  "responseHandler e packDir iconSlug resp w =
     (let url = r_url resp in
      if js_includes url ''/api/v1/assetmanager/presigned/loadProject/'' then
        (case r_json resp of
           None \<Rightarrow> w
         | Some responseData \<Rightarrow>
             (case presignedUrl responseData of
                None \<Rightarrow> w
              | Some presigned \<Rightarrow>
                  if presigned = [] then w
                  else
                    (let iconUuid = beforeQuery (lastSegment url);
                         w1 = w\<lparr>slugToUuidMap := AList.update iconSlug iconUuid (slugToUuidMap w)\<rparr>;
                         w2 = log_event (HttpGet presigned) w1
                     in case axios_get e presigned of
                          None \<Rightarrow> w2
                        | Some data \<Rightarrow>
                            (let outputPath = (packDir, iconSlug @ ''__'' @ iconUuid @ ''.glb'')
                             in if writable e outputPath
                                then log_event (FileWrite outputPath)
                                       (w2\<lparr>files := AList.update outputPath (Binary data) (files w2)\<rparr>)
                                else w2))))
      else w)"

text \<open>A response is handed to every listener that is registered when it arrives.\<close>

fun run_listener :: "env \<Rightarrow> response \<Rightarrow> world \<Rightarrow> listener \<Rightarrow> world" where
  "run_listener e resp w (ResponseHandler packDir iconSlug) = responseHandler e packDir iconSlug resp w"
| "run_listener e resp w (HandleResponse itemSlug) = w"

definition emit_response :: "env \<Rightarrow> world \<Rightarrow> response \<Rightarrow> world" where
  "emit_response e w resp = foldl (run_listener e resp) w (listeners w)"

definition deliver :: "env \<Rightarrow> response list \<Rightarrow> world \<Rightarrow> world" where
  "deliver e rs w = foldl (emit_response e) w rs"

text \<open>
  The body of the loop over \<open>iconSlugs\<close>, index.js lines 339-411 (and 203-275): the dedup
  test, the listener, the navigation, the wait, the removal of the listener; an error
  thrown by \<open>page.goto\<close> leaves through the \<open>catch\<close> of the loop body.
\<close>

definition processIcon :: "env \<Rightarrow> string \<Rightarrow> string \<Rightarrow> nav \<Rightarrow> world \<Rightarrow> world" where
  "processIcon e packDir iconSlug n w =
     (if fileExists iconSlug (readdirSync packDir w) then w
      else
        (let w1 = page_on (ResponseHandler packDir iconSlug) w;
             w2 = deliver e (goto_responses n) (log_event (Goto (trigger_url iconSlug)) w1)
         in if \<not> goto_ok n then w2
            else page_removeListener (ResponseHandler packDir iconSlug)
                   (deliver e (settle_responses n) w2)))"

fun processIcons :: "env \<Rightarrow> string \<Rightarrow> (string \<times> nav) list \<Rightarrow> world \<Rightarrow> world" where
  "processIcons e packDir [] w = w"
| "processIcons e packDir ((iconSlug, n) # rest) w =
     processIcons e packDir rest (processIcon e packDir iconSlug n w)"

text \<open>
  The end of \<open>main\<close>, index.js lines 419-425: the only place where index.js writes the
  mapping to disk.
\<close>

definition saveMapping :: "env \<Rightarrow> world \<Rightarrow> world" where
  "saveMapping e w =
     (let mappingPath = (OUTPUT_DIR, ''slug-uuid-mapping.json'')
      in if writable e mappingPath
         then log_event (FileWrite mappingPath)
                (w\<lparr>files := AList.update mappingPath (MappingJson (slugToUuidMap w)) (files w)\<rparr>)
         else w)"

section \<open>find-items.js: the combined discovery and download pipeline\<close>

definition DOWNLOAD_DIR :: string where
  "DOWNLOAD_DIR = ''downloads''"

text \<open>The \<open>itemData\<close> object built in the item loop (lines 397-401).\<close>

record item =
  itemUrl :: string
  packName :: string
  packUrl :: string

text \<open>
  \<open>handleResponse\<close>, find-items.js lines 187-199, as a function on the closure variable
  \<open>presignedUrl\<close> (\<open>None\<close> is \<open>null\<close>).
\<close>

definition handleResponse :: "response \<Rightarrow> string option \<Rightarrow> string option" where
  "handleResponse resp captured =
     (if js_includes (r_url resp) ''/api/v1/assetmanager/presigned/loadProject/'' then
        (case r_json resp of
           None \<Rightarrow> captured
         | Some data \<Rightarrow>
             if truthy (presignedUrl data) \<and> contentType data = Some ''model/gltf-binary''
             then presignedUrl data
             else captured)
      else captured)"

text \<open>The test under which \<open>handleResponse\<close> takes the signed URL of a response.\<close>

definition accepted :: "response \<Rightarrow> bool" where
  "accepted resp =
     (js_includes (r_url resp) ''/api/v1/assetmanager/presigned/loadProject/'' \<and>
      (case r_json resp of
         None \<Rightarrow> False
       | Some data \<Rightarrow> truthy (presignedUrl data) \<and> contentType data = Some ''model/gltf-binary''))"

definition handleResponses :: "response list \<Rightarrow> string option \<Rightarrow> string option" where
  "handleResponses rs captured = foldl (\<lambda>c r. handleResponse r c) captured rs"

text \<open>
  \<open>downloadGlbFile(item, page)\<close>, find-items.js lines 175-239, called with an
  \<open>itemData\<close> object. It returns \<open>true\<close> or \<open>false\<close>. Every throw inside lands in the
  \<open>catch\<close> that returns \<open>false\<close>. Listeners left over from earlier items only write
  their own closure variable, so they do not change the world.
\<close>

definition downloadGlbFile_find_items :: "env \<Rightarrow> item \<Rightarrow> nav \<Rightarrow> world \<Rightarrow> bool \<times> world" where
  "downloadGlbFile_find_items e it n w =
     (let itemSlug = lastSegment (itemUrl it);
          packFolder = DOWNLOAD_DIR @ ''/'' @ (if packName it = [] then ''unknown-pack'' else packName it);
          w1 = page_on (HandleResponse itemSlug) w;
          w2 = log_event (Goto (trigger_url itemSlug)) w1;
          c1 = handleResponses (goto_responses n) None
      in if \<not> goto_ok n then (False, w2)
         else
           (let c2 = handleResponses (redirect_responses n) c1
            in if \<not> redirect_ok n then (False, w2)
               else
                 (let c3 = handleResponses (settle_responses n) c2;
                      w3 = page_removeListener (HandleResponse itemSlug) w2
                  in case c3 of
                       None \<Rightarrow> (False, w3)
                     | Some presigned \<Rightarrow>
                         if presigned = [] then (False, w3)
                         else
                           (let w4 = log_event (HttpGet presigned) w3
                            in case axios_get e presigned of
                                 None \<Rightarrow> (False, w4)
                               | Some data \<Rightarrow>
                                   (let filePath = (packFolder, itemSlug @ ''.glb'')
                                    in if writable e filePath
                                       then (True, log_event (FileWrite filePath)
                                               (w4\<lparr>files := AList.update filePath (Binary data) (files w4)\<rparr>))
                                       else (False, w4))))))"

text \<open>The item loop of \<open>main\<close>, find-items.js lines 390-414, as far as downloads go.\<close>

fun downloadItems :: "env \<Rightarrow> (item \<times> nav) list \<Rightarrow> world \<Rightarrow> world" where
  "downloadItems e [] w = w"
| "downloadItems e ((it, n) # rest) w =
     downloadItems e rest (snd (downloadGlbFile_find_items e it n w))"

section \<open>The direct downloader: \<open>downloadGlbFile(presignedUrl, itemSlug, itemUuid)\<close>\<close>

text \<open>
  The item downloader (src/unnamed/part_000, lines 412-450; the icon downloader that
  follows index.js has the same function with the mapping file \<open>icon-mappings.json\<close>).
  Every throw inside lands in its own \<open>catch\<close>.
\<close>

text \<open>\<open>JSON.parse(fs.readFileSync(path, 'utf8'))\<close> on what a file holds.\<close>

fun parse_content :: "env \<Rightarrow> content \<Rightarrow> jsvalue option" where
  "parse_content e (Binary bytes) = json_parse e bytes"
| "parse_content e (MappingJson m) = Some (JObject m)"
| "parse_content e ArrayJson = Some JArray"

text \<open>
  Lines 430-439: \<open>mappings\<close> starts as the empty object; when the mapping file exists it
  becomes whatever the file parses to, and stays the empty object when the parse throws.
\<close>

definition readMappings :: "env \<Rightarrow> path \<Rightarrow> world \<Rightarrow> jsvalue" where
  "readMappings e mappingPath w =
     (case map_of (files w) mappingPath of
        None \<Rightarrow> JObject []
      | Some c \<Rightarrow> (case parse_content e c of None \<Rightarrow> JObject [] | Some v \<Rightarrow> v))"

text \<open>
  \<open>mappings[key] = value\<close> on an object with the prototype of plain objects: the key
  \<open>__proto__\<close> reaches the setter of the prototype, which ignores a string, unless the
  object has a property of that name of its own.
\<close>

definition js_assign :: "string \<Rightarrow> string \<Rightarrow> (string \<times> string) list \<Rightarrow> (string \<times> string) list" where
  "js_assign key v m =
     (if key = ''__proto__'' \<and> map_of m key = None then m else AList.update key v m)"

text \<open>
  Lines 412-450. The scripts are modules, hence strict code: the assignment of line 442
  throws on a primitive, and the \<open>catch\<close> of line 447 ends the call with the binary
  written and the mapping file as it was. On an array the assignment goes through and the
  file is rewritten with the text of an array.
\<close>

definition downloadGlbFile :: "env \<Rightarrow> string \<Rightarrow> string \<Rightarrow> string \<Rightarrow> world \<Rightarrow> world" where
  "downloadGlbFile e presigned itemSlug itemUuid w =
     (let w1 = log_event (HttpGet presigned) w
      in case axios_get e presigned of
           None \<Rightarrow> w1
         | Some data \<Rightarrow>
             (let outputPath = (OUTPUT_DIR, itemSlug @ ''__'' @ itemUuid @ ''.glb'')
              in if \<not> writable e outputPath then w1
                 else
                   (let w2 = log_event (FileWrite outputPath)
                               (w1\<lparr>files := AList.update outputPath (Binary data) (files w1)\<rparr>);
                        mappingPath = (OUTPUT_DIR, ''item-mappings.json'')
                    in case readMappings e mappingPath w2 of
                         JPrimitive \<Rightarrow> w2
                       | JObject mappings \<Rightarrow>
                           if writable e mappingPath
                           then log_event (FileWrite mappingPath)
                                  (w2\<lparr>files := AList.update mappingPath
                                        (MappingJson (js_assign itemSlug itemUuid mappings)) (files w2)\<rparr>)
                           else w2
                       | JArray \<Rightarrow>
                           if writable e mappingPath
                           then log_event (FileWrite mappingPath)
                                  (w2\<lparr>files := AList.update mappingPath ArrayJson (files w2)\<rparr>)
                           else w2)))"

section \<open>The rendered page\<close>

text \<open>
  What \<open>page.evaluate\<close> sees: the element tree. An element has its lower-case tag
  name, its attributes, the value of its \<open>href\<close> property (the resolved URL of an anchor;
  empty where the property is empty or undefined), its text content and its children.
\<close>

datatype element =
  Element (localName: string) (attributes: "(string \<times> string) list") (href_prop: string)
    (textContent: string) (childNodes: "element list")

fun descendants :: "element \<Rightarrow> element list" where
  "descendants (Element t a h x cs) = concat (map (\<lambda>c. c # descendants c) cs)"

text \<open>\<open>document.querySelectorAll\<close> ranges over every element, in document order.\<close>

definition all_elements :: "element \<Rightarrow> element list" where
  "all_elements doc = doc # descendants doc"

definition getAttribute :: "string \<Rightarrow> element \<Rightarrow> string option" where
  "getAttribute name el = map_of (attributes el) name"

definition hasAttribute :: "string \<Rightarrow> element \<Rightarrow> bool" where
  "hasAttribute name el = (getAttribute name el \<noteq> None)"

text \<open>The selectors \<open>[name*="part"]\<close> and \<open>[name^="part"]\<close>.\<close>

definition attr_includes :: "string \<Rightarrow> string \<Rightarrow> element \<Rightarrow> bool" where
  "attr_includes name part el =
     (case getAttribute name el of None \<Rightarrow> False | Some v \<Rightarrow> js_includes v part)"

definition attr_startsWith :: "string \<Rightarrow> string \<Rightarrow> element \<Rightarrow> bool" where
  "attr_startsWith name part el =
     (case getAttribute name el of None \<Rightarrow> False | Some v \<Rightarrow> startsWith v part)"

definition is_space :: "char \<Rightarrow> bool" where
  "is_space c = (c = CHR '' '' \<or> c = CHR 0x09 \<or> c = CHR 0x0A \<or> c = CHR 0x0C \<or> c = CHR 0x0D)"

fun tokens :: "string \<Rightarrow> string \<Rightarrow> string list" where
  "tokens cur [] = (if cur = [] then [] else [cur])"
| "tokens cur (c # cs) =
     (if is_space c then (if cur = [] then [] else [cur]) @ tokens [] cs
      else tokens (cur @ [c]) cs)"

definition classList :: "element \<Rightarrow> string list" where
  "classList el = (case getAttribute ''class'' el of None \<Rightarrow> [] | Some v \<Rightarrow> tokens [] v)"

text \<open>The selector \<open>.name\<close>, and \<open>classList.contains(name)\<close>.\<close>

definition hasClass :: "string \<Rightarrow> element \<Rightarrow> bool" where
  "hasClass name el = (name \<in> set (classList el))"

text \<open>
  The elements at or below \<open>el\<close> that have a proper ancestor satisfying \<open>anc\<close>, in
  document order; \<open>inside\<close> tells whether an ancestor above \<open>el\<close> already does.
\<close>

fun below :: "(element \<Rightarrow> bool) \<Rightarrow> bool \<Rightarrow> element \<Rightarrow> element list" where
  "below anc inside (Element t a h x cs) =
     (if inside then [Element t a h x cs] else []) @
     concat (map (below anc (inside \<or> anc (Element t a h x cs))) cs)"

text \<open>
  \<open>new URL(url).pathname\<close> inside \<open>try\<close>, with the URL itself as the fallback of the
  \<open>catch\<close>. The URL parser of the browser is a parameter: \<open>None\<close> is a throw.
\<close>

definition pathname_or_self :: "(string \<Rightarrow> string option) \<Rightarrow> string \<Rightarrow> string" where
  "pathname_or_self pathname url = (case pathname url of Some p \<Rightarrow> p | None \<Rightarrow> url)"

text \<open>A JavaScript \<open>Set\<close> of strings, in insertion order; \<open>add\<close> ignores a member.\<close>

definition set_add :: "string \<Rightarrow> string list \<Rightarrow> string list" where
  "set_add x xs = (if x \<in> set xs then xs else xs @ [x])"

definition add_all :: "string list \<Rightarrow> string list \<Rightarrow> string list" where
  "add_all xs ys = foldl (\<lambda>acc y. set_add y acc) xs ys"

section \<open>find-items.js: item references of a pack page\<close>

text \<open>\<open>scanForItemLinks\<close>, lines 282-288, on the shared set \<open>urls\<close>.\<close>

definition scanForItemLinks :: "string list \<Rightarrow> element list \<Rightarrow> string list" where
  "scanForItemLinks urls elements =
     foldl (\<lambda>acc el. if href_prop el \<noteq> [] \<and> js_includes (href_prop el) ''/item/''
                      then set_add (href_prop el) acc else acc) urls elements"

definition is_anchor :: "element \<Rightarrow> bool" where
  "is_anchor el = (localName el = ''a'')"

definition sel_item_anchor :: "element \<Rightarrow> bool" where
  "sel_item_anchor el = (is_anchor el \<and> attr_includes ''href'' ''/item/'' el)"

definition sel_component :: "element \<Rightarrow> bool" where
  "sel_component el = hasAttribute ''data-v-24e913ac'' el"

definition sel_card :: "element \<Rightarrow> bool" where
  "sel_card el =
     (hasClass ''card'' el \<or> hasClass ''thumbnail'' el \<or> hasClass ''asset-card'' el \<or>
      attr_includes ''class'' ''card'' el \<or> attr_includes ''class'' ''item'' el)"

definition sel_library :: "element \<Rightarrow> bool" where
  "sel_library el = (hasClass ''library--info-tag'' el \<or> attr_includes ''class'' ''library'' el)"

text \<open>The anchors below each element of a list, scanned one element after the other.\<close>

definition scanAnchorsBelow :: "string list \<Rightarrow> element list \<Rightarrow> string list" where
  "scanAnchorsBelow urls containers =
     foldl (\<lambda>acc c. scanForItemLinks acc (filter is_anchor (descendants c))) urls containers"

text \<open>\<open>getItemUrls\<close>, lines 276-319: four scans into one set, then the map to path form.\<close>

definition getItemUrls :: "(string \<Rightarrow> string option) \<Rightarrow> element \<Rightarrow> string list" where
  "getItemUrls pathname doc =
     (let urls0 = [];
          urls1 = scanForItemLinks urls0 (filter sel_item_anchor (all_elements doc));
          components = filter sel_component (all_elements doc);
          urls2 = scanAnchorsBelow urls1 components;
          cards = filter sel_card (all_elements doc);
          urls3 = scanAnchorsBelow urls2 cards;
          libraryTags = filter sel_library (all_elements doc);
          urls4 = scanForItemLinks urls3 libraryTags
      in map (pathname_or_self pathname) urls4)"

text \<open>Each heuristic run alone, on a set of its own.\<close>

definition direct_anchor_hrefs :: "element \<Rightarrow> string list" where
  "direct_anchor_hrefs doc = scanForItemLinks [] (filter sel_item_anchor (all_elements doc))"

definition component_hrefs :: "element \<Rightarrow> string list" where
  "component_hrefs doc = scanAnchorsBelow [] (filter sel_component (all_elements doc))"

definition card_hrefs :: "element \<Rightarrow> string list" where
  "card_hrefs doc = scanAnchorsBelow [] (filter sel_card (all_elements doc))"

definition library_tag_hrefs :: "element \<Rightarrow> string list" where
  "library_tag_hrefs doc = scanForItemLinks [] (filter sel_library (all_elements doc))"

text \<open>The hrefs a scan adds, in the order of the scanned elements.\<close>

definition item_hrefs :: "element list \<Rightarrow> string list" where
  "item_hrefs els = filter (\<lambda>h. h \<noteq> [] \<and> js_includes h ''/item/'') (map href_prop els)"

section \<open>find-items.js: pagination over the catalog\<close>

text \<open>\<open>a.indexOf(v)\<close>: the first index of \<open>v\<close>, or \<open>-1\<close>.\<close>

fun indexOf :: "string list \<Rightarrow> string \<Rightarrow> int" where
  "indexOf [] v = - 1"
| "indexOf (x # xs) v =
     (if x = v then 0 else (let r = indexOf xs v in if r < 0 then - 1 else r + 1))"

text \<open>\<open>.filter((v, i, a) => a.indexOf(v) === i)\<close>.\<close>

definition uniqueValues :: "string list \<Rightarrow> string list" where
  "uniqueValues a = map snd (filter (\<lambda>p. indexOf a (snd p) = int (fst p)) (enumerate 0 a))"

definition sel_pack_anchor :: "element \<Rightarrow> bool" where
  "sel_pack_anchor el = (is_anchor el \<and> attr_startsWith ''href'' ''/pack/'' el)"

text \<open>\<open>getPackUrls\<close>, lines 89-101.\<close>

definition getPackUrls :: "(string \<Rightarrow> string option) \<Rightarrow> element \<Rightarrow> string list" where
  "getPackUrls pathname doc =
     uniqueValues (map (\<lambda>link. pathname_or_self pathname (href_prop link))
                     (filter sel_pack_anchor (all_elements doc)))"

definition sel_pagination :: "element \<Rightarrow> bool" where
  "sel_pagination el = (hasClass ''pagination'' el \<or> attr_includes ''class'' ''pagination'' el)"

definition sel_next :: "element \<Rightarrow> bool" where
  "sel_next el = (attr_includes ''class'' ''next'' el \<or> attr_includes ''aria-label'' ''next'' el)"

text \<open>
  The \<open>disabled\<close> property: that of a form control reflects the attribute; on any other
  element it is undefined.
\<close>

definition disabled :: "element \<Rightarrow> bool" where
  "disabled el =
     (localName el \<in> set [''button'', ''input'', ''select'', ''textarea'', ''fieldset'',
                           ''optgroup'', ''option''] \<and>
      hasAttribute ''disabled'' el)"

text \<open>The test for an enabled next control, lines 113-119.\<close>

definition hasNextPage :: "element \<Rightarrow> bool" where
  "hasNextPage doc =
     (case find sel_pagination (all_elements doc) of
        None \<Rightarrow> False
      | Some pagination \<Rightarrow>
          (case find sel_next (descendants pagination) of
             None \<Rightarrow> False
           | Some nextButton \<Rightarrow> \<not> disabled nextButton \<and> \<not> hasClass ''disabled'' nextButton))"

text \<open>
  The click, lines 128-135: \<open>true\<close> when some element matches
  \<open>.pagination [class*="next"], .pagination [aria-label*="next"]\<close>.
\<close>

definition nextPageClicked :: "element \<Rightarrow> bool" where
  "nextPageClicked doc = (find sel_next (below (hasClass ''pagination'') False doc) \<noteq> None)"

text \<open>
  The catalog as the script meets it: the document of the \<open>i\<close>-th listing page, and
  whether \<open>page.waitForNavigation\<close> after the click on that page returns (the rejection
  handler of line 145 clears \<open>hasMorePages\<close> otherwise).
\<close>

record listing =
  document :: element
  navigated :: bool

text \<open>
  The loop of lines 111-165 on \<open>allPackUrls\<close>, for evaluations in the page that
  return. It has no bound on the number of pages; \<open>None\<close> is a run that never leaves
  the loop.
\<close>

partial_function (option) paginate ::
    "(string \<Rightarrow> string option) \<Rightarrow> (nat \<Rightarrow> listing) \<Rightarrow> nat \<Rightarrow> string list \<Rightarrow> string list option" where
  "paginate pathname site i allPackUrls =
     (if \<not> hasNextPage (document (site i)) then Some allPackUrls
      else if \<not> nextPageClicked (document (site i)) then Some allPackUrls
      else if \<not> navigated (site i) then Some allPackUrls
      else paginate pathname site (Suc i)
             (add_all allPackUrls (getPackUrls pathname (document (site (Suc i))))))"

declare paginate.simps [code]

text \<open>Lines 104-165: the packs of the first page, then the loop.\<close>

definition collectPackUrls :: "(string \<Rightarrow> string option) \<Rightarrow> (nat \<Rightarrow> listing) \<Rightarrow> string list option" where
  "collectPackUrls pathname site = paginate pathname site 0 (getPackUrls pathname (document (site 0)))"

text \<open>The three ways out of the loop, as seen on one listing page.\<close>

definition stops :: "listing \<Rightarrow> bool" where
  "stops p = (\<not> hasNextPage (document p) \<or> \<not> nextPageClicked (document p) \<or> \<not> navigated p)"

text \<open>The pack paths of the listing pages \<open>0\<close> to \<open>k\<close>, each once, in order of first discovery.\<close>

definition discovered :: "(string \<Rightarrow> string option) \<Rightarrow> (nat \<Rightarrow> listing) \<Rightarrow> nat \<Rightarrow> string list" where
  "discovered pathname site k =
     add_all [] (concat (map (\<lambda>j. getPackUrls pathname (document (site j))) [0..<Suc k]))"

section \<open>index.js: icon slugs of a pack page\<close>

text \<open>
  The regular expressions of the two extraction functions. \<open>search m s\<close> is the leftmost
  match of \<open>m\<close> in \<open>s\<close>, where \<open>m\<close> matches at the start of its argument.
  \<open>capture_before cls lit\<close> matches \<open>([cls]+)lit\<close> at the start and gives the group:
  the longest non-empty run of class characters that \<open>lit\<close> follows.
\<close>

fun search :: "(string \<Rightarrow> string option) \<Rightarrow> string \<Rightarrow> string option" where
  "search m [] = m []"
| "search m (c # cs) = (case m (c # cs) of Some g \<Rightarrow> Some g | None \<Rightarrow> search m cs)"

definition capture_before :: "(char \<Rightarrow> bool) \<Rightarrow> string \<Rightarrow> string \<Rightarrow> string option" where
  "capture_before cls lit s =
     (case filter (\<lambda>k. startsWith (drop k s) lit) (rev [1..<Suc (length (takeWhile cls s))]) of
        [] \<Rightarrow> None
      | k # ks \<Rightarrow> Some (take k s))"

text \<open>\<open>href.match(/slug=([^&]+)/)\<close>, group 1.\<close>

definition match_slug :: "string \<Rightarrow> string option" where
  "match_slug href =
     search (\<lambda>s. if startsWith s ''slug='' \<and> takeWhile (\<lambda>c. c \<noteq> CHR ''&'') (drop 5 s) \<noteq> []
                 then Some (takeWhile (\<lambda>c. c \<noteq> CHR ''&'') (drop 5 s)) else None) href"

text \<open>\<open>src.match(/\/([^\/]+)-3d-icon/)\<close>, group 1.\<close>

definition match_src :: "string \<Rightarrow> string option" where
  "match_src src =
     search (\<lambda>s. case s of
                   [] \<Rightarrow> None
                 | c # rest \<Rightarrow> if c = CHR ''/''
                              then capture_before (\<lambda>c. c \<noteq> CHR ''/'') ''-3d-icon'' rest
                              else None) src"

text \<open>\<open>alt.match(/([a-z0-9-]+)-3d-icon/)\<close>, group 1.\<close>

definition match_alt :: "string \<Rightarrow> string option" where
  "match_alt alt =
     search (capture_before (\<lambda>c. c \<in> set ''abcdefghijklmnopqrstuvwxyz0123456789-'') ''-3d-icon'') alt"

text \<open>
  Values of the extracted lists: a string, or \<open>None\<close> for \<open>undefined\<close> and \<open>null\<close>.
  \<open>a || b\<close> on such values, and \<open>.filter(Boolean)\<close>.
\<close>

definition js_or :: "string option \<Rightarrow> string option \<Rightarrow> string option" where
  "js_or a b = (if truthy a then a else b)"

definition filterBoolean :: "string option list \<Rightarrow> string option list" where
  "filterBoolean xs = filter truthy xs"

text \<open>
  An item of the embedded state, with the two fields the script reads; and what the
  script gets out of one script body: the regular expression does not match, the
  evaluation (or the walk to the items, or the map over them) throws, or the items are
  there. The evaluation of page code is a parameter.
\<close>

record icon =
  icon_slug :: "string option"
  icon_id :: "string option"

datatype nuxt = NoMatch | Throws | Items "icon list"

text \<open>The loop over the script elements, index.js lines 302-321, as the value of \<open>iconData\<close>.\<close>

fun scanScripts :: "(string \<Rightarrow> nuxt) \<Rightarrow> element list \<Rightarrow> string option list" where
  "scanScripts ev [] = []"
| "scanScripts ev (script # rest) =
     (let content = textContent script in
      if content \<noteq> [] \<and> js_includes content ''window.__NUXT__'' then
        (case ev content of
           Items icons \<Rightarrow> map (\<lambda>i. js_or (icon_slug i) (icon_id i)) icons
         | NoMatch \<Rightarrow> scanScripts ev rest
         | Throws \<Rightarrow> scanScripts ev rest)
      else scanScripts ev rest)"

definition sel_script :: "element \<Rightarrow> bool" where
  "sel_script el = (localName el = ''script'')"

definition sel_create_link :: "element \<Rightarrow> bool" where
  "sel_create_link el = (is_anchor el \<and> attr_includes ''href'' ''design/create?slug='' el)"

definition sel_slug_card :: "element \<Rightarrow> bool" where
  "sel_slug_card el = (hasAttribute ''data-slug'' el \<or> hasAttribute ''data-icon-slug'' el)"

definition sel_icon_image :: "element \<Rightarrow> bool" where
  "sel_icon_image el =
     (localName el = ''img'' \<and> (attr_includes ''src'' ''icon'' el \<or> attr_includes ''alt'' ''icon'' el))"

text \<open>The three sources of slugs, as the scripts compute them.\<close>

definition blobSlugs :: "(string \<Rightarrow> nuxt) \<Rightarrow> element \<Rightarrow> string option list" where
  "blobSlugs ev doc = scanScripts ev (filter sel_script (all_elements doc))"

definition linkSlugs :: "element list \<Rightarrow> string option list" where
  "linkSlugs links =
     filterBoolean (map (\<lambda>link. case getAttribute ''href'' link of
                                   None \<Rightarrow> None
                                 | Some href \<Rightarrow> match_slug href) links)"

definition cardSlugs :: "element list \<Rightarrow> string option list" where
  "cardSlugs iconCards =
     filterBoolean (map (\<lambda>card. js_or (getAttribute ''data-slug'' card)
                                       (getAttribute ''data-icon-slug'' card)) iconCards)"

definition imageSlugs :: "element list \<Rightarrow> string option list" where
  "imageSlugs images =
     filterBoolean
       (map (\<lambda>img. let src = (case getAttribute ''src'' img of None \<Rightarrow> [] | Some v \<Rightarrow> v);
                        alt = (case getAttribute ''alt'' img of None \<Rightarrow> [] | Some v \<Rightarrow> v)
                    in case match_src src of Some g \<Rightarrow> Some g | None \<Rightarrow> match_alt alt) images)"

text \<open>The extraction in the branch for the packs found on the listing page, lines 296-334.\<close>

definition iconSlugs :: "(string \<Rightarrow> nuxt) \<Rightarrow> element \<Rightarrow> string option list" where
  "iconSlugs ev doc =
     (let iconData = blobSlugs ev doc
      in if length iconData = 0
         then linkSlugs (filter sel_create_link (all_elements doc))
         else iconData)"

text \<open>The extraction in the branch for the hardcoded packs, lines 160-192.\<close>

definition iconSlugs_hardcoded :: "element \<Rightarrow> string option list" where
  "iconSlugs_hardcoded doc =
     (let createLinks = filter sel_create_link (all_elements doc)
      in if length createLinks > 0 then linkSlugs createLinks
         else
           (let iconCards = filter sel_slug_card (all_elements doc)
            in if length iconCards > 0 then cardSlugs iconCards
               else imageSlugs (filter sel_icon_image (all_elements doc))))"

text \<open>
  The layered fallback in the words of the specification: the embedded state first; if
  that yields nothing, the anchors with a \<open>slug=\<close> parameter; if that yields nothing
  either, the images.
\<close>

definition spec_layered_slugs :: "(string \<Rightarrow> nuxt) \<Rightarrow> element \<Rightarrow> string option list" where
  "spec_layered_slugs ev doc =
     (let fromBlob = blobSlugs ev doc
      in if fromBlob \<noteq> [] then fromBlob
         else
           (let fromLinks = linkSlugs (filter sel_create_link (all_elements doc))
            in if fromLinks \<noteq> [] then fromLinks
               else imageSlugs (filter sel_icon_image (all_elements doc))))"

section \<open>Reading a trace\<close>

text \<open>
  \<open>nav_guarded live es\<close> walks a trace with the listeners that are live and tells whether
  every navigation to a resolution-trigger URL happens while a listener for the slug of
  that URL is registered. \<open>live_after\<close> gives the listeners live at the end of a trace.
\<close>

fun nav_guarded :: "listener list \<Rightarrow> event list \<Rightarrow> bool" where
  "nav_guarded live [] = True"
| "nav_guarded live (ListenerOn l # es) = nav_guarded (l # live) es"
| "nav_guarded live (ListenerOff l # es) = nav_guarded (remove1 l live) es"
| "nav_guarded live (Goto u # es) =
     (list_ex (\<lambda>l. u = trigger_url (listener_slug l)) live \<and> nav_guarded live es)"
| "nav_guarded live (HttpGet u # es) = nav_guarded live es"
| "nav_guarded live (FileWrite p # es) = nav_guarded live es"

fun live_after :: "listener list \<Rightarrow> event list \<Rightarrow> listener list" where
  "live_after live [] = live"
| "live_after live (ListenerOn l # es) = live_after (l # live) es"
| "live_after live (ListenerOff l # es) = live_after (remove1 l live) es"
| "live_after live (Goto u # es) = live_after live es"
| "live_after live (HttpGet u # es) = live_after live es"
| "live_after live (FileWrite p # es) = live_after live es"

text \<open>The events a response handler can add: fetches and file writes.\<close>

fun quiet_event :: "event \<Rightarrow> bool" where
  "quiet_event (HttpGet u) = True"
| "quiet_event (FileWrite p) = True"
| "quiet_event (ListenerOn l) = False"
| "quiet_event (ListenerOff l) = False"
| "quiet_event (Goto u) = False"

section \<open>Worked inputs\<close>

text \<open>
  The example of the specification: slug \<open>foo\<close>, identifier \<open>abc123\<close>, signed URL
  \<open>https://cdn.example/x\<close>. Only that URL can be fetched; every write succeeds; of the
  bytes a file may hold, \<open>null\<close> parses (to \<open>null\<close>) and everything else makes
  \<open>JSON.parse\<close> throw.
\<close>

definition ex_env :: env where
  "ex_env = \<lparr>axios_get = (\<lambda>u. if u = ''https://cdn.example/x'' then Some ''glTF'' else None),
             writable = (\<lambda>p. True),
             json_parse = (\<lambda>bytes. if bytes = ''null'' then Some JPrimitive else None)\<rparr>"

definition ex_resp :: response where
  "ex_resp = \<lparr>r_url = ''https://pixcap.com/api/v1/assetmanager/presigned/loadProject/abc123?lang=en'',
              r_json = Some \<lparr>presignedUrl = Some ''https://cdn.example/x'',
                              contentType = Some ''model/gltf-binary''\<rparr>\<rparr>"

definition ex_world :: world where
  "ex_world = \<lparr>files = [], listeners = [], trace = [], slugToUuidMap = []\<rparr>"

definition ex_nav :: nav where
  "ex_nav = \<lparr>goto_ok = True, goto_responses = [ex_resp], redirect_ok = True,
             redirect_responses = [], settle_responses = []\<rparr>"

definition ex_item :: item where
  "ex_item = \<lparr>itemUrl = ''/item/foo'', packName = ''Pack'', packUrl = ''/pack/p''\<rparr>"

text \<open>A world in which \<open>foo__abc123.glb\<close> is already in the pack folder of find-items.js.\<close>

definition ex_world_stored :: world where
  "ex_world_stored =
     \<lparr>files = [((''downloads/Pack'', ''foo__abc123.glb''), Binary ''glTF'')],
      listeners = [], trace = [], slugToUuidMap = []\<rparr>"

text \<open>A navigation whose \<open>page.goto\<close> times out before any response arrives.\<close>

definition ex_nav_timeout :: nav where
  "ex_nav_timeout = \<lparr>goto_ok = False, goto_responses = [], redirect_ok = True,
                     redirect_responses = [], settle_responses = []\<rparr>"

text \<open>A navigation whose \<open>page.goto\<close> returns and whose \<open>page.waitForNavigation\<close> times out.\<close>

definition ex_nav_no_redirect :: nav where
  "ex_nav_no_redirect = \<lparr>goto_ok = True, goto_responses = [ex_resp], redirect_ok = False,
                         redirect_responses = [], settle_responses = []\<rparr>"

text \<open>An environment in which nothing but the stored icon in the pack directory can be written.\<close>

definition ex_env_pack_only :: env where
  "ex_env_pack_only =
     \<lparr>axios_get = (\<lambda>u. if u = ''https://cdn.example/x'' then Some ''glTF'' else None),
      writable = (\<lambda>p. p = (''glb/pack'', ''foo__abc123.glb'')),
      json_parse = (\<lambda>bytes. None)\<rparr>"

text \<open>Worlds whose output directory holds a mapping file: one with an entry, one with \<open>null\<close>.\<close>

definition ex_world_mapped :: world where
  "ex_world_mapped =
     \<lparr>files = [((''glb'', ''item-mappings.json''), MappingJson [(''bar'', ''def456'')])],
      listeners = [], trace = [], slugToUuidMap = []\<rparr>"

definition ex_world_null_mapping :: world where
  "ex_world_null_mapping =
     \<lparr>files = [((''glb'', ''item-mappings.json''), Binary ''null'')],
      listeners = [], trace = [], slugToUuidMap = []\<rparr>"

text \<open>An environment in which every fetch fails.\<close>

definition ex_env_offline :: env where
  "ex_env_offline = \<lparr>axios_get = (\<lambda>u. None), writable = (\<lambda>p. True),
                     json_parse = (\<lambda>bytes. None)\<rparr>"

text \<open>A resolution response with a signed URL whose content type is not the binary glTF one.\<close>

definition ex_resp_json :: response where
  "ex_resp_json = \<lparr>r_url = ''https://pixcap.com/api/v1/assetmanager/presigned/loadProject/abc123?lang=en'',
                   r_json = Some \<lparr>presignedUrl = Some ''https://cdn.example/x'',
                                   contentType = Some ''application/json''\<rparr>\<rparr>"

definition ex_nav_json :: nav where
  "ex_nav_json = \<lparr>goto_ok = True, goto_responses = [ex_resp_json], redirect_ok = True,
                  redirect_responses = [], settle_responses = []\<rparr>"

text \<open>A navigation during which an accepted response and one of another content type arrive.\<close>

definition ex_nav_both :: nav where
  "ex_nav_both = \<lparr>goto_ok = True, goto_responses = [ex_resp, ex_resp_json], redirect_ok = True,
                  redirect_responses = [], settle_responses = []\<rparr>"

text \<open>A response that is no JSON at all: the trigger page itself.\<close>

definition ex_resp_html :: response where
  "ex_resp_html = \<lparr>r_url = ''https://pixcap.com/design/create?slug=foo'', r_json = None\<rparr>"

definition ex_nav_html_json :: nav where
  "ex_nav_html_json = \<lparr>goto_ok = True, goto_responses = [ex_resp_html, ex_resp_json],
                       redirect_ok = True, redirect_responses = [], settle_responses = []\<rparr>"

text \<open>A URL parser for the site's absolute URLs: the path without the query string.\<close>

definition ex_pathname :: "string \<Rightarrow> string option" where
  "ex_pathname u =
     (if startsWith u ''https://pixcap.com/'' then Some (beforeQuery (drop 18 u)) else None)"

text \<open>
  A pack page: a direct item anchor; a scoped component with a relative item anchor; a
  card whose anchor repeats the first item with a query string; a library tag.
\<close>

definition ex_pack_page :: element where
  "ex_pack_page =
     Element ''html'' [] [] []
       [Element ''a'' [(''href'', ''/item/a'')] ''https://pixcap.com/item/a'' [] [],
        Element ''div'' [(''data-v-24e913ac'', [])] [] []
          [Element ''a'' [(''href'', ''item/b'')] ''https://pixcap.com/item/b'' [] []],
        Element ''div'' [(''class'', ''grid asset-card'')] [] []
          [Element ''a'' [(''href'', ''/item/a?ref=card'')] ''https://pixcap.com/item/a?ref=card'' [] []],
        Element ''a'' [(''class'', ''library--info-tag''), (''href'', ''item/c'')]
          ''https://pixcap.com/item/c'' [] []]"

text \<open>
  A catalog of three listing pages with two, three and one pack; the next control of the
  third page carries the class \<open>disabled\<close>.
\<close>

definition ex_pack_link :: "string \<Rightarrow> element" where
  "ex_pack_link name =
     Element ''a'' [(''href'', ''/pack/'' @ name)] (''https://pixcap.com/pack/'' @ name) [] []"

definition ex_pager :: "string \<Rightarrow> element" where
  "ex_pager cls =
     Element ''div'' [(''class'', ''pagination'')] [] []
       [Element ''button'' [(''class'', cls)] [] [] []]"

definition ex_site :: "nat \<Rightarrow> listing" where
  "ex_site i =
     (if i = 0 then
        \<lparr>document = Element ''html'' [] [] []
                      [ex_pack_link ''a'', ex_pack_link ''b'', ex_pager ''next''],
         navigated = True\<rparr>
      else if i = 1 then
        \<lparr>document = Element ''html'' [] [] []
                      [ex_pack_link ''c'', ex_pack_link ''d'', ex_pack_link ''e'', ex_pager ''next''],
         navigated = True\<rparr>
      else
        \<lparr>document = Element ''html'' [] [] [] [ex_pack_link ''f'', ex_pager ''next disabled''],
         navigated = True\<rparr>)"

text \<open>
  Two pack pages for the slug extraction: one with nothing but an icon image, one with
  nothing but the embedded state; and an evaluation that finds one item in that state.
\<close>

definition ex_image_page :: element where
  "ex_image_page =
     Element ''html'' [] [] []
       [Element ''img'' [(''src'', ''/thumbs/rocket-3d-icon.png''), (''alt'', ''rocket'')] [] [] []]"

definition ex_blob_page :: element where
  "ex_blob_page =
     Element ''html'' [] [] []
       [Element ''script'' [] [] ''window.__NUXT__={state:{pack:{pack:{items:[{slug:\"rocket\"}]}}}}'' []]"

definition ex_eval :: "string \<Rightarrow> nuxt" where
  "ex_eval content =
     (if content = ''window.__NUXT__={state:{pack:{pack:{items:[{slug:\"rocket\"}]}}}}''
      then Items [\<lparr>icon_slug = Some ''rocket'', icon_id = None\<rparr>] else NoMatch)"

section \<open>Properties of the dedup test\<close>

lemma fileExists_iff:
  "fileExists s names \<longleftrightarrow> (\<exists>f \<in> set names. startsWith f (s @ ''__'') \<and> endsWith f ''.glb'')"
  by (simp add: fileExists_def list_ex_iff)

lemma readdirSync_mem:
  "((d, f), c) \<in> set (files w) \<Longrightarrow> f \<in> set (readdirSync d w)"
  by (force simp: readdirSync_def)

lemma processIcon_first_run:
  "processIcon ex_env ''glb/pack'' ''foo'' ex_nav ex_world =
     \<lparr>files = [((''glb/pack'', ''foo__abc123.glb''), Binary ''glTF'')],
      listeners = [],
      trace = [ListenerOn (ResponseHandler ''glb/pack'' ''foo''),
               Goto ''https://pixcap.com/design/create?slug=foo'',
               HttpGet ''https://cdn.example/x'',
               FileWrite (''glb/pack'', ''foo__abc123.glb''),
               ListenerOff (ResponseHandler ''glb/pack'' ''foo'')],
      slugToUuidMap = [(''foo'', ''abc123'')]\<rparr>"
  by code_simp

text \<open>
  C1, as far as it holds. In the pack loop of index.js, when the pack directory holds a file
  whose name starts with the slug followed by \<open>__\<close> and ends with \<open>.glb\<close>, processing
  the slug leaves the whole world as it was: no listener is registered, no navigation and
  no fetch is traced, no file is written and \<open>slugToUuidMap\<close> keeps its entries.
\<close>

theorem index_dedup_skips_resolution:
  assumes "((packDir, filename), c) \<in> set (files w)"
    and "startsWith filename (iconSlug @ ''__'')"
    and "endsWith filename ''.glb''"
  shows "processIcon e packDir iconSlug n w = w"
  using assms by (auto simp: processIcon_def fileExists_iff dest: readdirSync_mem)

theorem index_dedup_skips_resolution_witness:
  "processIcon ex_env ''glb/pack'' ''foo'' ex_nav (processIcon ex_env ''glb/pack'' ''foo'' ex_nav ex_world)
     = processIcon ex_env ''glb/pack'' ''foo'' ex_nav ex_world"
  using index_dedup_skips_resolution [of "''glb/pack''" "''foo__abc123.glb''" "Binary ''glTF''"
      "processIcon ex_env ''glb/pack'' ''foo'' ex_nav ex_world" "''foo''" ex_env ex_nav]
  by (simp add: processIcon_first_run startsWith_def endsWith_def)

text \<open>
  C1 as stated fails in find-items.js: \<open>downloadGlbFile\<close> has no dedup test. With
  \<open>foo__abc123.glb\<close> already in the pack folder it still registers the listener,
  navigates, fetches and writes.
\<close>

theorem find_items_resolves_stored_slug:
  "fileExists ''foo'' (readdirSync ''downloads/Pack'' ex_world_stored) \<and>
   trace (snd (downloadGlbFile_find_items ex_env ex_item ex_nav ex_world_stored)) =
     [ListenerOn (HandleResponse ''foo''),
      Goto ''https://pixcap.com/design/create?slug=foo'',
      ListenerOff (HandleResponse ''foo''),
      HttpGet ''https://cdn.example/x'',
      FileWrite (''downloads/Pack'', ''foo.glb'')]"
  by code_simp

section \<open>Listener registration and navigation order\<close>

lemma responseHandler_listeners [simp]:
  "listeners (responseHandler e d s r w) = listeners w"
  by (simp add: responseHandler_def log_event_def Let_def split: option.splits)

lemma responseHandler_trace:
  "\<exists>evs. trace (responseHandler e d s r w) = trace w @ evs \<and> list_all quiet_event evs"
  by (simp add: responseHandler_def log_event_def Let_def split: option.splits)

lemma run_listener_listeners [simp]:
  "listeners (run_listener e r w l) = listeners w"
  by (cases l) simp_all

lemma run_listener_trace:
  "\<exists>evs. trace (run_listener e r w l) = trace w @ evs \<and> list_all quiet_event evs"
  by (cases l) (simp_all add: responseHandler_trace)

lemma foldl_run_listener_listeners [simp]:
  "listeners (foldl (run_listener e r) w ls) = listeners w"
  by (induction ls arbitrary: w) simp_all

lemma foldl_run_listener_trace:
  "\<exists>evs. trace (foldl (run_listener e r) w ls) = trace w @ evs \<and> list_all quiet_event evs"
proof (induction ls arbitrary: w)
  case Nil
  show ?case by simp
next
  case (Cons l ls)
  obtain a where a: "trace (run_listener e r w l) = trace w @ a" "list_all quiet_event a"
    using run_listener_trace by blast
  obtain b where b: "trace (foldl (run_listener e r) (run_listener e r w l) ls)
      = trace (run_listener e r w l) @ b" "list_all quiet_event b"
    using Cons.IH by blast
  have "trace (foldl (run_listener e r) w (l # ls)) = trace w @ (a @ b)"
    using a b by simp
  moreover have "list_all quiet_event (a @ b)" using a b by simp
  ultimately show ?case by blast
qed

lemma emit_response_listeners [simp]:
  "listeners (emit_response e w r) = listeners w"
  by (simp add: emit_response_def)

lemma emit_response_trace:
  "\<exists>evs. trace (emit_response e w r) = trace w @ evs \<and> list_all quiet_event evs"
  by (simp add: emit_response_def foldl_run_listener_trace)

lemma deliver_listeners [simp]:
  "listeners (deliver e rs w) = listeners w"
  unfolding deliver_def by (induction rs arbitrary: w) simp_all

lemma deliver_trace:
  "\<exists>evs. trace (deliver e rs w) = trace w @ evs \<and> list_all quiet_event evs"
  unfolding deliver_def
proof (induction rs arbitrary: w)
  case Nil
  show ?case by simp
next
  case (Cons r rs)
  obtain a where a: "trace (emit_response e w r) = trace w @ a" "list_all quiet_event a"
    using emit_response_trace by blast
  obtain b where b: "trace (foldl (emit_response e) (emit_response e w r) rs)
      = trace (emit_response e w r) @ b" "list_all quiet_event b"
    using Cons.IH by blast
  have "trace (foldl (emit_response e) w (r # rs)) = trace w @ (a @ b)"
    using a b by simp
  moreover have "list_all quiet_event (a @ b)" using a b by simp
  ultimately show ?case by blast
qed

lemma nav_guarded_quiet:
  "list_all quiet_event es \<Longrightarrow> nav_guarded live (es @ es') = nav_guarded live es'"
  by (induction live es rule: nav_guarded.induct) simp_all

lemma live_after_quiet:
  "list_all quiet_event es \<Longrightarrow> live_after live (es @ es') = live_after live es'"
  by (induction live es rule: live_after.induct) simp_all

lemma nav_guarded_append:
  "nav_guarded live (a @ b) = (nav_guarded live a \<and> nav_guarded (live_after live a) b)"
  by (induction live a rule: nav_guarded.induct) simp_all

lemma processIcon_trace:
  "\<exists>new. trace (processIcon e d s n w) = trace w @ new \<and> (\<forall>live. nav_guarded live new)"
proof (cases "fileExists s (readdirSync d w)")
  case True
  then show ?thesis by (simp add: processIcon_def)
next
  case False
  let ?l = "ResponseHandler d s"
  let ?w1 = "log_event (Goto (trigger_url s)) (page_on ?l w)"
  obtain a where a: "trace (deliver e (goto_responses n) ?w1) = trace ?w1 @ a" "list_all quiet_event a"
    using deliver_trace by blast
  obtain b where b: "trace (deliver e (settle_responses n) (deliver e (goto_responses n) ?w1))
      = trace (deliver e (goto_responses n) ?w1) @ b" "list_all quiet_event b"
    using deliver_trace by blast
  have w1: "trace ?w1 = trace w @ [ListenerOn ?l, Goto (trigger_url s)]"
    by (simp add: log_event_def page_on_def)
  show ?thesis
  proof (cases "goto_ok n")
    case True
    have "trace (processIcon e d s n w) = trace w @ ([ListenerOn ?l, Goto (trigger_url s)] @ a @ b @ [ListenerOff ?l])"
      using False True a b w1 by (simp add: processIcon_def Let_def page_removeListener_def)
    moreover have "\<forall>live. nav_guarded live ([ListenerOn ?l, Goto (trigger_url s)] @ a @ b @ [ListenerOff ?l])"
      using a(2) b(2) by (simp add: nav_guarded_quiet)
    ultimately show ?thesis by blast
  next
    case g: False
    have "trace (processIcon e d s n w) = trace w @ ([ListenerOn ?l, Goto (trigger_url s)] @ a)"
      using False g a w1 by (simp add: processIcon_def Let_def)
    moreover have "\<forall>live. nav_guarded live ([ListenerOn ?l, Goto (trigger_url s)] @ a)"
      using a(2) nav_guarded_quiet[of a _ "[]"] by simp
    ultimately show ?thesis by blast
  qed
qed

lemma processIcons_trace:
  "\<exists>new. trace (processIcons e d icons w) = trace w @ new \<and> (\<forall>live. nav_guarded live new)"
proof (induction icons arbitrary: w)
  case Nil
  show ?case by simp
next
  case (Cons p icons)
  obtain s n where p: "p = (s, n)" by (cases p)
  obtain a where a: "trace (processIcon e d s n w) = trace w @ a" "\<forall>live. nav_guarded live a"
    using processIcon_trace by blast
  obtain b where b: "trace (processIcons e d icons (processIcon e d s n w))
       = trace (processIcon e d s n w) @ b" "\<forall>live. nav_guarded live b"
    using Cons.IH by blast
  have "trace (processIcons e d (p # icons) w) = trace w @ (a @ b)"
    using p a b by simp
  moreover have "\<forall>live. nav_guarded live (a @ b)"
    using a(2) b(2) by (simp add: nav_guarded_append)
  ultimately show ?case by blast
qed

lemma downloadGlbFile_find_items_trace:
  "\<exists>new. trace (snd (downloadGlbFile_find_items e it n w)) = trace w @ new \<and> (\<forall>live. nav_guarded live new)"
proof -
  let ?s = "lastSegment (itemUrl it)"
  let ?l = "HandleResponse ?s"
  have "\<exists>rest. trace (snd (downloadGlbFile_find_items e it n w))
      = trace w @ [ListenerOn ?l, Goto (trigger_url ?s)] @ rest
      \<and> (\<forall>live. nav_guarded live rest)"
    by (simp add: downloadGlbFile_find_items_def Let_def log_event_def page_on_def
        page_removeListener_def split: option.splits)
  then obtain rest where r: "trace (snd (downloadGlbFile_find_items e it n w))
      = trace w @ [ListenerOn ?l, Goto (trigger_url ?s)] @ rest" "\<forall>live. nav_guarded live rest"
    by blast
  have "\<forall>live. nav_guarded live ([ListenerOn ?l, Goto (trigger_url ?s)] @ rest)"
    using r(2) by simp
  with r(1) show ?thesis by blast
qed

lemma downloadItems_trace:
  "\<exists>new. trace (downloadItems e its w) = trace w @ new \<and> (\<forall>live. nav_guarded live new)"
proof (induction its arbitrary: w)
  case Nil
  show ?case by simp
next
  case (Cons p its)
  obtain it n where p: "p = (it, n)" by (cases p)
  let ?w1 = "snd (downloadGlbFile_find_items e it n w)"
  obtain a where a: "trace ?w1 = trace w @ a" "\<forall>live. nav_guarded live a"
    using downloadGlbFile_find_items_trace by blast
  obtain b where b: "trace (downloadItems e its ?w1) = trace ?w1 @ b" "\<forall>live. nav_guarded live b"
    using Cons.IH by blast
  have "trace (downloadItems e (p # its) w) = trace w @ (a @ b)"
    using p a b by simp
  moreover have "\<forall>live. nav_guarded live (a @ b)"
    using a(2) b(2) by (simp add: nav_guarded_append)
  ultimately show ?case by blast
qed

text \<open>
  C2. In the icon loop of index.js and in the item loop of find-items.js, whatever the
  navigations, the responses and the fetches do, the events the loop adds to the trace
  are guarded: each navigation to a resolution-trigger URL comes after the registration
  of a listener for the slug of that URL, which is still registered at that moment.
\<close>

theorem register_before_navigate:
  "(\<exists>new. trace (processIcons e packDir icons w) = trace w @ new \<and> nav_guarded live new) \<and>
   (\<exists>new. trace (downloadItems e its w) = trace w @ new \<and> nav_guarded live new)"
  using processIcons_trace [of e packDir icons w] downloadItems_trace [of e its w] by blast

theorem register_before_navigate_witness:
  "nav_guarded [] (trace (processIcons ex_env ''glb/pack'' [(''foo'', ex_nav), (''bar'', ex_nav_timeout)] ex_world)) \<and>
   nav_guarded [] (trace (downloadItems ex_env [(ex_item, ex_nav), (ex_item, ex_nav_timeout)] ex_world))"
  using register_before_navigate [of ex_env "''glb/pack''" "[(''foo'', ex_nav), (''bar'', ex_nav_timeout)]" ex_world "[]"
      "[(ex_item, ex_nav), (ex_item, ex_nav_timeout)]"]
  by (auto simp: ex_world_def)

section \<open>Listeners left registered\<close>

text \<open>
  C3 fails on the code. When \<open>page.goto\<close> throws, control leaves through the
  \<open>catch\<close> and the removal of the listener is not reached: after one such item its
  listener is still registered, and after the next one two listeners are live. The same
  holds in find-items.js, also when \<open>page.waitForNavigation\<close> throws.
\<close>

theorem listener_left_after_goto_timeout:
  "listeners (processIcon ex_env ''glb/pack'' ''foo'' ex_nav_timeout ex_world)
     = [ResponseHandler ''glb/pack'' ''foo''] \<and>
   listeners (processIcons ex_env ''glb/pack'' [(''foo'', ex_nav_timeout), (''bar'', ex_nav_timeout)] ex_world)
     = [ResponseHandler ''glb/pack'' ''foo'', ResponseHandler ''glb/pack'' ''bar''] \<and>
   listeners (snd (downloadGlbFile_find_items ex_env ex_item ex_nav_timeout ex_world))
     = [HandleResponse ''foo''] \<and>
   listeners (snd (downloadGlbFile_find_items ex_env ex_item ex_nav_no_redirect ex_world))
     = [HandleResponse ''foo'']"
  by code_simp

section \<open>Failed and successful downloads\<close>

lemma glb_name_not_json [simp]:
  "a @ ''.glb'' \<noteq> b @ ''.json''"
proof
  assume "a @ ''.glb'' = b @ ''.json''"
  then have "last (a @ ''.glb'') = last (b @ ''.json'')" by simp
  then show False by simp
qed

lemma stored_name_not_mapping [simp]:
  "s @ ''__'' @ u @ ''.glb'' \<noteq> ''item-mappings.json''"
  "s @ ''__'' @ u @ ''.glb'' \<noteq> ''slug-uuid-mapping.json''"
  using glb_name_not_json [of "s @ ''__'' @ u" "''item-mappings''"]
        glb_name_not_json [of "s @ ''__'' @ u" "''slug-uuid-mapping''"]
  by simp_all

lemma responseHandler_fetch_fails:
  assumes "r_json resp = Some b" and "presignedUrl b = Some u" and "axios_get e u = None"
  shows "files (responseHandler e packDir iconSlug resp w) = files w"
  using assms by (simp add: responseHandler_def Let_def log_event_def)

lemma responseHandler_fetch_fails_mapping:
  assumes "js_includes (r_url resp) ''/api/v1/assetmanager/presigned/loadProject/''"
    and "r_json resp = Some b" and "presignedUrl b = Some u" and "u \<noteq> []"
    and "axios_get e u = None"
  shows "slugToUuidMap (responseHandler e packDir iconSlug resp w)
       = AList.update iconSlug (beforeQuery (lastSegment (r_url resp))) (slugToUuidMap w)"
  using assms by (simp add: responseHandler_def Let_def log_event_def)

lemma downloadGlbFile_fetch_fails:
  assumes "axios_get e u = None"
  shows "files (downloadGlbFile e u s i w) = files w"
    and "slugToUuidMap (downloadGlbFile e u s i w) = slugToUuidMap w"
  using assms by (simp_all add: downloadGlbFile_def Let_def log_event_def)

text \<open>
  C4, as far as it holds. When the fetch of the signed URL fails, no file is written or
  changed, in the handler of index.js and in the direct downloader; the direct downloader
  leaves the mapping alone as well. In index.js the entry for the slug was set in
  \<open>slugToUuidMap\<close> before the fetch was tried, and it stays.
\<close>

theorem failed_fetch_writes_nothing:
  assumes "js_includes (r_url resp) ''/api/v1/assetmanager/presigned/loadProject/''"
    and "r_json resp = Some b" and "presignedUrl b = Some u" and "u \<noteq> []"
    and "axios_get e u = None"
  shows "files (responseHandler e packDir iconSlug resp w) = files w \<and>
         slugToUuidMap (responseHandler e packDir iconSlug resp w)
           = AList.update iconSlug (beforeQuery (lastSegment (r_url resp))) (slugToUuidMap w) \<and>
         files (downloadGlbFile e u itemSlug itemUuid w) = files w \<and>
         slugToUuidMap (downloadGlbFile e u itemSlug itemUuid w) = slugToUuidMap w"
  using responseHandler_fetch_fails [OF assms(2,3,5)]
        responseHandler_fetch_fails_mapping [OF assms]
        downloadGlbFile_fetch_fails [OF assms(5)]
  by simp

theorem failed_fetch_writes_nothing_witness:
  "files (responseHandler ex_env_offline ''glb/pack'' ''foo'' ex_resp ex_world) = [] \<and>
   slugToUuidMap (responseHandler ex_env_offline ''glb/pack'' ''foo'' ex_resp ex_world) = [(''foo'', ''abc123'')] \<and>
   files (downloadGlbFile ex_env_offline ''https://cdn.example/x'' ''foo'' ''abc123'' ex_world) = [] \<and>
   slugToUuidMap (downloadGlbFile ex_env_offline ''https://cdn.example/x'' ''foo'' ''abc123'' ex_world) = []"
proof -
  have inc: "js_includes (r_url ex_resp) ''/api/v1/assetmanager/presigned/loadProject/''"
    by code_simp
  have uuid: "beforeQuery (lastSegment (r_url ex_resp)) = ''abc123''"
    by code_simp
  have j: "r_json ex_resp = Some \<lparr>presignedUrl = Some ''https://cdn.example/x'',
                              contentType = Some ''model/gltf-binary''\<rparr>"
    by (simp add: ex_resp_def)
  show ?thesis
    using failed_fetch_writes_nothing [OF inc j, of "''https://cdn.example/x''" ex_env_offline
        "''glb/pack''" "''foo''" ex_world "''foo''" "''abc123''"]
    by (simp add: uuid ex_env_offline_def ex_world_def)
qed

text \<open>
  C4 as stated fails in index.js: the fetch fails, and the mapping has gained the entry
  for the slug.
\<close>

theorem index_mapping_set_before_fetch:
  "axios_get ex_env_offline ''https://cdn.example/x'' = None \<and>
   slugToUuidMap ex_world = [] \<and>
   slugToUuidMap (processIcon ex_env_offline ''glb/pack'' ''foo'' ex_nav ex_world) = [(''foo'', ''abc123'')]"
  by code_simp

lemma responseHandler_stores:
  assumes "js_includes (r_url resp) ''/api/v1/assetmanager/presigned/loadProject/''"
    and "r_json resp = Some b" and "presignedUrl b = Some u" and "u \<noteq> []"
    and "axios_get e u = Some data"
    and "writable e (packDir, iconSlug @ ''__'' @ beforeQuery (lastSegment (r_url resp)) @ ''.glb'')"
  shows "responseHandler e packDir iconSlug resp w =
     w\<lparr>files := AList.update (packDir, iconSlug @ ''__'' @ beforeQuery (lastSegment (r_url resp)) @ ''.glb'')
                  (Binary data) (files w),
       trace := trace w @ [HttpGet u,
                  FileWrite (packDir, iconSlug @ ''__'' @ beforeQuery (lastSegment (r_url resp)) @ ''.glb'')],
       slugToUuidMap := AList.update iconSlug (beforeQuery (lastSegment (r_url resp))) (slugToUuidMap w)\<rparr>"
  using assms by (simp add: responseHandler_def Let_def log_event_def)

lemma remove_last_snoc [simp]: "remove_last l (ls @ [l]) = ls"
  by (simp add: remove_last_def)

lemma js_assign_plain: "key \<noteq> ''__proto__'' \<Longrightarrow> js_assign key v m = AList.update key v m"
  by (simp add: js_assign_def)

lemma downloadGlbFile_stores:
  assumes "axios_get e u = Some data"
    and "writable e (OUTPUT_DIR, s @ ''__'' @ i @ ''.glb'')"
    and "writable e (OUTPUT_DIR, ''item-mappings.json'')"
    and "readMappings e (OUTPUT_DIR, ''item-mappings.json'') w = JObject m"
  shows "downloadGlbFile e u s i w =
     w\<lparr>files := AList.update (OUTPUT_DIR, ''item-mappings.json'')
                  (MappingJson (js_assign s i m))
                  (AList.update (OUTPUT_DIR, s @ ''__'' @ i @ ''.glb'') (Binary data) (files w)),
       trace := trace w @ [HttpGet u, FileWrite (OUTPUT_DIR, s @ ''__'' @ i @ ''.glb''),
                  FileWrite (OUTPUT_DIR, ''item-mappings.json'')]\<rparr>"
proof -
  have "readMappings e (OUTPUT_DIR, ''item-mappings.json'')
          (log_event (FileWrite (OUTPUT_DIR, s @ ''__'' @ i @ ''.glb''))
             ((log_event (HttpGet u) w)\<lparr>files := AList.update (OUTPUT_DIR, s @ ''__'' @ i @ ''.glb'')
                 (Binary data) (files (log_event (HttpGet u) w))\<rparr>))
        = readMappings e (OUTPUT_DIR, ''item-mappings.json'') w"
    by (simp add: readMappings_def log_event_def update_conv')
  then show ?thesis
    using assms by (simp add: downloadGlbFile_def Let_def) (simp add: log_event_def)
qed

text \<open>
  When the mapping file parses to a primitive, the binary is written and the mapping
  file is left as it was: the entry of the stored item is not recorded.
\<close>

lemma downloadGlbFile_primitive_mapping:
  assumes "axios_get e u = Some data"
    and "writable e (OUTPUT_DIR, s @ ''__'' @ i @ ''.glb'')"
    and "readMappings e (OUTPUT_DIR, ''item-mappings.json'') w = JPrimitive"
  shows "downloadGlbFile e u s i w =
     w\<lparr>files := AList.update (OUTPUT_DIR, s @ ''__'' @ i @ ''.glb'') (Binary data) (files w),
       trace := trace w @ [HttpGet u, FileWrite (OUTPUT_DIR, s @ ''__'' @ i @ ''.glb'')]\<rparr>"
proof -
  have "readMappings e (OUTPUT_DIR, ''item-mappings.json'')
          (log_event (FileWrite (OUTPUT_DIR, s @ ''__'' @ i @ ''.glb''))
             ((log_event (HttpGet u) w)\<lparr>files := AList.update (OUTPUT_DIR, s @ ''__'' @ i @ ''.glb'')
                 (Binary data) (files (log_event (HttpGet u) w))\<rparr>))
        = readMappings e (OUTPUT_DIR, ''item-mappings.json'') w"
    by (simp add: readMappings_def log_event_def update_conv')
  then show ?thesis
    using assms by (simp add: downloadGlbFile_def Let_def) (simp add: log_event_def)
qed

lemma downloadGlbFile_null_mapping:
  "files (downloadGlbFile ex_env ''https://cdn.example/x'' ''foo'' ''abc123'' ex_world_null_mapping)
     = [((''glb'', ''item-mappings.json''), Binary ''null''),
        ((''glb'', ''foo__abc123.glb''), Binary ''glTF'')]"
  by code_simp

lemma handleResponses_truthy:
  "truthy c \<Longrightarrow> truthy (handleResponses rs c)"
  unfolding handleResponses_def
  by (induction rs arbitrary: c) (simp_all add: handleResponse_def split: option.splits)

lemma find_items_stores:
  assumes "fst (downloadGlbFile_find_items e it n w)"
  shows "\<exists>u data. axios_get e u = Some data \<and>
     snd (downloadGlbFile_find_items e it n w) =
       w\<lparr>files := AList.update
            (DOWNLOAD_DIR @ ''/'' @ (if packName it = [] then ''unknown-pack'' else packName it),
             lastSegment (itemUrl it) @ ''.glb'') (Binary data) (files w),
         trace := trace w @ [ListenerOn (HandleResponse (lastSegment (itemUrl it))),
                    Goto (trigger_url (lastSegment (itemUrl it))),
                    ListenerOff (HandleResponse (lastSegment (itemUrl it))),
                    HttpGet u,
                    FileWrite (DOWNLOAD_DIR @ ''/'' @ (if packName it = [] then ''unknown-pack'' else packName it),
                               lastSegment (itemUrl it) @ ''.glb'')]\<rparr>"
  using assms
  by (auto simp: downloadGlbFile_find_items_def Let_def log_event_def page_on_def
      page_removeListener_def split: option.splits if_splits)

text \<open>
  C5, as far as it holds. For a resolution response with identifier \<open>id\<close> (the last
  segment of the response URL, query string stripped) and a usable signed URL whose fetch
  and write succeed, the handler of index.js writes exactly the file
  \<open>slug__id.glb\<close> in the pack directory and sets \<open>slugToUuidMap[slug] = id\<close>. Given
  slug, identifier and signed URL, the direct downloader writes \<open>slug__id.glb\<close> in
  the output directory when fetch and write succeed; when the mapping file is missing,
  cannot be parsed or holds an object, and can be written, it then holds the entry of the
  slug (for a slug other than \<open>__proto__\<close>). When \<open>downloadGlbFile\<close> of find-items.js
  succeeds, the file it wrote is \<open>slug.glb\<close> in the pack folder, and no identifier is
  recorded. Each of the three parts has its own conditions.
\<close>

theorem stored_file_name_and_mapping:
  "(js_includes (r_url resp) ''/api/v1/assetmanager/presigned/loadProject/'' \<and>
    r_json resp = Some b \<and> presignedUrl b = Some u \<and> u \<noteq> [] \<and>
    axios_get e u = Some data \<and>
    writable e (packDir, s @ ''__'' @ beforeQuery (lastSegment (r_url resp)) @ ''.glb'') \<longrightarrow>
      map_of (files (responseHandler e packDir s resp w))
          (packDir, s @ ''__'' @ beforeQuery (lastSegment (r_url resp)) @ ''.glb'')
        = Some (Binary data) \<and>
      trace (responseHandler e packDir s resp w)
        = trace w @ [HttpGet u,
            FileWrite (packDir, s @ ''__'' @ beforeQuery (lastSegment (r_url resp)) @ ''.glb'')] \<and>
      map_of (slugToUuidMap (responseHandler e packDir s resp w)) s
        = Some (beforeQuery (lastSegment (r_url resp)))) \<and>
   (axios_get e u = Some data \<and>
    writable e (OUTPUT_DIR, s @ ''__'' @ ident @ ''.glb'') \<longrightarrow>
      map_of (files (downloadGlbFile e u s ident w)) (OUTPUT_DIR, s @ ''__'' @ ident @ ''.glb'')
        = Some (Binary data) \<and>
      (\<exists>rest. trace (downloadGlbFile e u s ident w)
         = trace w @ [HttpGet u, FileWrite (OUTPUT_DIR, s @ ''__'' @ ident @ ''.glb'')] @ rest \<and>
         (rest = [] \<or> rest = [FileWrite (OUTPUT_DIR, ''item-mappings.json'')]))) \<and>
   (axios_get e u = Some data \<and>
    writable e (OUTPUT_DIR, s @ ''__'' @ ident @ ''.glb'') \<and>
    writable e (OUTPUT_DIR, ''item-mappings.json'') \<and>
    readMappings e (OUTPUT_DIR, ''item-mappings.json'') w = JObject m \<and>
    s \<noteq> ''__proto__'' \<longrightarrow>
      map_of (files (downloadGlbFile e u s ident w)) (OUTPUT_DIR, ''item-mappings.json'')
        = Some (MappingJson (AList.update s ident m)) \<and>
      map_of (AList.update s ident m) s = Some ident) \<and>
   (fst (downloadGlbFile_find_items e it n w) \<longrightarrow>
      (\<exists>fetched. map_of (files (snd (downloadGlbFile_find_items e it n w)))
         (DOWNLOAD_DIR @ ''/'' @ (if packName it = [] then ''unknown-pack'' else packName it),
          lastSegment (itemUrl it) @ ''.glb'') = Some (Binary fetched)) \<and>
      slugToUuidMap (snd (downloadGlbFile_find_items e it n w)) = slugToUuidMap w)"
proof (intro conjI impI)
  assume h: "js_includes (r_url resp) ''/api/v1/assetmanager/presigned/loadProject/'' \<and>
    r_json resp = Some b \<and> presignedUrl b = Some u \<and> u \<noteq> [] \<and>
    axios_get e u = Some data \<and>
    writable e (packDir, s @ ''__'' @ beforeQuery (lastSegment (r_url resp)) @ ''.glb'')"
  then have eq: "responseHandler e packDir s resp w =
     w\<lparr>files := AList.update (packDir, s @ ''__'' @ beforeQuery (lastSegment (r_url resp)) @ ''.glb'')
                  (Binary data) (files w),
       trace := trace w @ [HttpGet u,
                  FileWrite (packDir, s @ ''__'' @ beforeQuery (lastSegment (r_url resp)) @ ''.glb'')],
       slugToUuidMap := AList.update s (beforeQuery (lastSegment (r_url resp))) (slugToUuidMap w)\<rparr>"
    using responseHandler_stores [of resp b u e data packDir s w] by blast
  show "map_of (files (responseHandler e packDir s resp w))
          (packDir, s @ ''__'' @ beforeQuery (lastSegment (r_url resp)) @ ''.glb'')
        = Some (Binary data)"
    by (simp add: eq update_conv')
  show "trace (responseHandler e packDir s resp w)
        = trace w @ [HttpGet u,
            FileWrite (packDir, s @ ''__'' @ beforeQuery (lastSegment (r_url resp)) @ ''.glb'')]"
    by (simp add: eq)
  show "map_of (slugToUuidMap (responseHandler e packDir s resp w)) s
        = Some (beforeQuery (lastSegment (r_url resp)))"
    by (simp add: eq update_conv')
next
  assume h: "axios_get e u = Some data \<and> writable e (OUTPUT_DIR, s @ ''__'' @ ident @ ''.glb'')"
  show "map_of (files (downloadGlbFile e u s ident w)) (OUTPUT_DIR, s @ ''__'' @ ident @ ''.glb'')
        = Some (Binary data)"
    using h
    by (simp add: downloadGlbFile_def Let_def log_event_def update_conv' split: jsvalue.splits)
  show "\<exists>rest. trace (downloadGlbFile e u s ident w)
         = trace w @ [HttpGet u, FileWrite (OUTPUT_DIR, s @ ''__'' @ ident @ ''.glb'')] @ rest \<and>
         (rest = [] \<or> rest = [FileWrite (OUTPUT_DIR, ''item-mappings.json'')])"
    using h
    by (simp add: downloadGlbFile_def Let_def log_event_def split: jsvalue.splits)
next
  assume h: "axios_get e u = Some data \<and>
    writable e (OUTPUT_DIR, s @ ''__'' @ ident @ ''.glb'') \<and>
    writable e (OUTPUT_DIR, ''item-mappings.json'') \<and>
    readMappings e (OUTPUT_DIR, ''item-mappings.json'') w = JObject m \<and>
    s \<noteq> ''__proto__''"
  then have eq: "downloadGlbFile e u s ident w =
     w\<lparr>files := AList.update (OUTPUT_DIR, ''item-mappings.json'')
                  (MappingJson (js_assign s ident m))
                  (AList.update (OUTPUT_DIR, s @ ''__'' @ ident @ ''.glb'') (Binary data) (files w)),
       trace := trace w @ [HttpGet u, FileWrite (OUTPUT_DIR, s @ ''__'' @ ident @ ''.glb''),
                  FileWrite (OUTPUT_DIR, ''item-mappings.json'')]\<rparr>"
    using downloadGlbFile_stores [of e u data s ident w m] by blast
  show "map_of (files (downloadGlbFile e u s ident w)) (OUTPUT_DIR, ''item-mappings.json'')
        = Some (MappingJson (AList.update s ident m))"
    using h by (simp add: eq update_conv' js_assign_plain)
  show "map_of (AList.update s ident m) s = Some ident"
    by (simp add: update_conv')
next
  assume f: "fst (downloadGlbFile_find_items e it n w)"
  obtain u' fetched where eq: "snd (downloadGlbFile_find_items e it n w) =
       w\<lparr>files := AList.update
            (DOWNLOAD_DIR @ ''/'' @ (if packName it = [] then ''unknown-pack'' else packName it),
             lastSegment (itemUrl it) @ ''.glb'') (Binary fetched) (files w),
         trace := trace w @ [ListenerOn (HandleResponse (lastSegment (itemUrl it))),
                    Goto (trigger_url (lastSegment (itemUrl it))),
                    ListenerOff (HandleResponse (lastSegment (itemUrl it))),
                    HttpGet u',
                    FileWrite (DOWNLOAD_DIR @ ''/'' @ (if packName it = [] then ''unknown-pack'' else packName it),
                               lastSegment (itemUrl it) @ ''.glb'')]\<rparr>"
    using find_items_stores [OF f] by blast
  show "\<exists>fetched. map_of (files (snd (downloadGlbFile_find_items e it n w)))
         (DOWNLOAD_DIR @ ''/'' @ (if packName it = [] then ''unknown-pack'' else packName it),
          lastSegment (itemUrl it) @ ''.glb'') = Some (Binary fetched)"
    by (simp add: eq update_conv')
  show "slugToUuidMap (snd (downloadGlbFile_find_items e it n w)) = slugToUuidMap w"
    by (simp add: eq)
qed

theorem stored_file_name_and_mapping_witness:
  "map_of (files (responseHandler ex_env_pack_only ''glb/pack'' ''foo'' ex_resp ex_world))
       (''glb/pack'', ''foo__abc123.glb'') = Some (Binary ''glTF'') \<and>
   map_of (slugToUuidMap (responseHandler ex_env_pack_only ''glb/pack'' ''foo'' ex_resp ex_world)) ''foo''
     = Some ''abc123'' \<and>
   map_of (files (downloadGlbFile ex_env ''https://cdn.example/x'' ''foo'' ''abc123'' ex_world_mapped))
       (''glb'', ''foo__abc123.glb'') = Some (Binary ''glTF'') \<and>
   map_of (files (downloadGlbFile ex_env ''https://cdn.example/x'' ''foo'' ''abc123'' ex_world_mapped))
       (''glb'', ''item-mappings.json'')
     = Some (MappingJson [(''bar'', ''def456''), (''foo'', ''abc123'')]) \<and>
   (\<exists>fetched. map_of (files (snd (downloadGlbFile_find_items ex_env ex_item ex_nav ex_world)))
      (''downloads/Pack'', ''foo.glb'') = Some (Binary fetched))"
proof -
  have inc: "js_includes (r_url ex_resp) ''/api/v1/assetmanager/presigned/loadProject/''"
    by code_simp
  have j: "r_json ex_resp = Some \<lparr>presignedUrl = Some ''https://cdn.example/x'',
                              contentType = Some ''model/gltf-binary''\<rparr>"
    by (simp add: ex_resp_def)
  have i: "beforeQuery (lastSegment (r_url ex_resp)) = ''abc123''"
    by code_simp
  have gp: "axios_get ex_env_pack_only ''https://cdn.example/x'' = Some ''glTF''"
    by (simp add: ex_env_pack_only_def)
  have wp: "writable ex_env_pack_only (''glb/pack'', ''foo__abc123.glb'')"
    by (simp add: ex_env_pack_only_def)
  have g: "axios_get ex_env ''https://cdn.example/x'' = Some ''glTF''"
    by (simp add: ex_env_def)
  have w: "writable ex_env p" for p
    by (simp add: ex_env_def)
  have r: "readMappings ex_env (''glb'', ''item-mappings.json'') ex_world_mapped
             = JObject [(''bar'', ''def456'')]"
    by (simp add: readMappings_def ex_world_mapped_def)
  have f: "fst (downloadGlbFile_find_items ex_env ex_item ex_nav ex_world)"
    by code_simp
  have sl: "lastSegment ''/item/foo'' = ''foo''"
    by code_simp
  have up: "AList.update ''foo'' ''abc123'' [(''bar'', ''def456'')]
              = [(''bar'', ''def456''), (''foo'', ''abc123'')]"
    by simp
  note t1 = stored_file_name_and_mapping [where resp = ex_resp and e = ex_env_pack_only
      and u = "''https://cdn.example/x''" and data = "''glTF''" and packDir = "''glb/pack''"
      and s = "''foo''" and w = ex_world
      and b = "\<lparr>presignedUrl = Some ''https://cdn.example/x'', contentType = Some ''model/gltf-binary''\<rparr>",
      THEN conjunct1, unfolded i]
  note t2 = stored_file_name_and_mapping [where e = ex_env and u = "''https://cdn.example/x''"
      and data = "''glTF''" and s = "''foo''" and ident = "''abc123''" and w = ex_world_mapped
      and m = "[(''bar'', ''def456'')]", unfolded OUTPUT_DIR_def]
  note t3 = stored_file_name_and_mapping [where e = ex_env and it = ex_item and n = ex_nav
      and w = ex_world, THEN conjunct2, THEN conjunct2, THEN conjunct2]
  have a: "map_of (files (responseHandler ex_env_pack_only ''glb/pack'' ''foo'' ex_resp ex_world))
       (''glb/pack'', ''foo__abc123.glb'') = Some (Binary ''glTF'') \<and>
     map_of (slugToUuidMap (responseHandler ex_env_pack_only ''glb/pack'' ''foo'' ex_resp ex_world)) ''foo''
       = Some ''abc123''"
    using t1 inc j gp wp by simp
  have b: "map_of (files (downloadGlbFile ex_env ''https://cdn.example/x'' ''foo'' ''abc123'' ex_world_mapped))
       (''glb'', ''foo__abc123.glb'') = Some (Binary ''glTF'')"
    using t2 [THEN conjunct2, THEN conjunct1] g w by simp
  have c: "map_of (files (downloadGlbFile ex_env ''https://cdn.example/x'' ''foo'' ''abc123'' ex_world_mapped))
       (''glb'', ''item-mappings.json'')
     = Some (MappingJson [(''bar'', ''def456''), (''foo'', ''abc123'')])"
    using t2 [THEN conjunct2, THEN conjunct2, THEN conjunct1] g w r by (simp add: up)
  have d: "\<exists>fetched. map_of (files (snd (downloadGlbFile_find_items ex_env ex_item ex_nav ex_world)))
      (''downloads/Pack'', ''foo.glb'') = Some (Binary fetched)"
    using t3 f by (simp add: DOWNLOAD_DIR_def sl ex_item_def)
  from a b c d show ?thesis by blast
qed

text \<open>
  C5 as stated fails in find-items.js: for slug \<open>foo\<close>, with the identifier
  \<open>abc123\<close> in the response URL and a successful fetch, the only file written is
  \<open>foo.glb\<close>, and no mapping entry exists afterwards.
\<close>

theorem find_items_file_name_without_identifier:
  "fst (downloadGlbFile_find_items ex_env ex_item ex_nav ex_world) \<and>
   files (snd (downloadGlbFile_find_items ex_env ex_item ex_nav ex_world))
     = [((''downloads/Pack'', ''foo.glb''), Binary ''glTF'')] \<and>
   slugToUuidMap (snd (downloadGlbFile_find_items ex_env ex_item ex_nav ex_world)) = []"
  by code_simp

section \<open>The mapping file on disk\<close>

lemma responseHandler_mapping_file [simp]:
  "map_of (files (responseHandler e d s r w)) (d', ''slug-uuid-mapping.json'')
     = map_of (files w) (d', ''slug-uuid-mapping.json'')"
  by (simp add: responseHandler_def Let_def log_event_def update_conv' split: option.splits)

lemma run_listener_mapping_file [simp]:
  "map_of (files (run_listener e r w l)) (d', ''slug-uuid-mapping.json'')
     = map_of (files w) (d', ''slug-uuid-mapping.json'')"
  by (cases l) simp_all

lemma foldl_run_listener_mapping_file [simp]:
  "map_of (files (foldl (run_listener e r) w ls)) (d', ''slug-uuid-mapping.json'')
     = map_of (files w) (d', ''slug-uuid-mapping.json'')"
  by (induction ls arbitrary: w) simp_all

lemma deliver_mapping_file [simp]:
  "map_of (files (deliver e rs w)) (d', ''slug-uuid-mapping.json'')
     = map_of (files w) (d', ''slug-uuid-mapping.json'')"
  unfolding deliver_def by (induction rs arbitrary: w) (simp_all add: emit_response_def)

lemma processIcon_mapping_file [simp]:
  "map_of (files (processIcon e d s n w)) (d', ''slug-uuid-mapping.json'')
     = map_of (files w) (d', ''slug-uuid-mapping.json'')"
  by (simp add: processIcon_def Let_def page_on_def page_removeListener_def log_event_def)

lemma processIcons_mapping_file:
  "map_of (files (processIcons e d icons w)) (d', ''slug-uuid-mapping.json'')
     = map_of (files w) (d', ''slug-uuid-mapping.json'')"
  by (induction icons arbitrary: w) auto

text \<open>
  C6, as far as it holds. In the direct downloader, when the mapping file is missing,
  cannot be parsed or holds an object, a successful store (of a slug other than
  \<open>__proto__\<close>) is followed at once by a rewrite of the mapping file: the entries read
  back from disk (none when the file is missing or cannot be parsed) with the entry of
  the stored item set. In index.js the icon loop never touches the mapping file;
  \<open>slugToUuidMap\<close> is written to disk once, after the loops.
\<close>

theorem mapping_file_updates:
  "(axios_get e u = Some data \<and>
    writable e (OUTPUT_DIR, s @ ''__'' @ i @ ''.glb'') \<and>
    writable e (OUTPUT_DIR, ''item-mappings.json'') \<and>
    readMappings e (OUTPUT_DIR, ''item-mappings.json'') w = JObject m \<and>
    s \<noteq> ''__proto__'' \<longrightarrow>
      map_of (files (downloadGlbFile e u s i w)) (OUTPUT_DIR, ''item-mappings.json'')
        = Some (MappingJson (AList.update s i m)) \<and>
      readMappings e (OUTPUT_DIR, ''item-mappings.json'') (downloadGlbFile e u s i w)
        = JObject (AList.update s i m) \<and>
      map_of (AList.update s i m) = (map_of m)(s \<mapsto> i)) \<and>
   map_of (files (processIcons e packDir icons w)) (OUTPUT_DIR, ''slug-uuid-mapping.json'')
     = map_of (files w) (OUTPUT_DIR, ''slug-uuid-mapping.json'') \<and>
   (writable e (OUTPUT_DIR, ''slug-uuid-mapping.json'') \<longrightarrow>
      map_of (files (saveMapping e (processIcons e packDir icons w))) (OUTPUT_DIR, ''slug-uuid-mapping.json'')
        = Some (MappingJson (slugToUuidMap (processIcons e packDir icons w))))"
proof (intro conjI impI)
  assume h: "axios_get e u = Some data \<and>
    writable e (OUTPUT_DIR, s @ ''__'' @ i @ ''.glb'') \<and>
    writable e (OUTPUT_DIR, ''item-mappings.json'') \<and>
    readMappings e (OUTPUT_DIR, ''item-mappings.json'') w = JObject m \<and>
    s \<noteq> ''__proto__''"
  then have eq: "downloadGlbFile e u s i w =
     w\<lparr>files := AList.update (OUTPUT_DIR, ''item-mappings.json'')
                  (MappingJson (js_assign s i m))
                  (AList.update (OUTPUT_DIR, s @ ''__'' @ i @ ''.glb'') (Binary data) (files w)),
       trace := trace w @ [HttpGet u, FileWrite (OUTPUT_DIR, s @ ''__'' @ i @ ''.glb''),
                  FileWrite (OUTPUT_DIR, ''item-mappings.json'')]\<rparr>"
    using downloadGlbFile_stores [of e u data s i w m] by blast
  show 1: "map_of (files (downloadGlbFile e u s i w)) (OUTPUT_DIR, ''item-mappings.json'')
        = Some (MappingJson (AList.update s i m))"
    using h by (simp add: eq update_conv' js_assign_plain)
  show "readMappings e (OUTPUT_DIR, ''item-mappings.json'') (downloadGlbFile e u s i w)
        = JObject (AList.update s i m)"
    using 1 by (simp add: readMappings_def [of _ _ "downloadGlbFile e u s i w"])
  show "map_of (AList.update s i m) = (map_of m)(s \<mapsto> i)"
    by (rule update_conv')
next
  show "map_of (files (processIcons e packDir icons w)) (OUTPUT_DIR, ''slug-uuid-mapping.json'')
     = map_of (files w) (OUTPUT_DIR, ''slug-uuid-mapping.json'')"
    by (rule processIcons_mapping_file)
next
  assume "writable e (OUTPUT_DIR, ''slug-uuid-mapping.json'')"
  then show "map_of (files (saveMapping e (processIcons e packDir icons w))) (OUTPUT_DIR, ''slug-uuid-mapping.json'')
        = Some (MappingJson (slugToUuidMap (processIcons e packDir icons w)))"
    by (simp add: saveMapping_def Let_def log_event_def update_conv')
qed

theorem mapping_file_updates_witness:
  "map_of (files (downloadGlbFile ex_env ''https://cdn.example/x'' ''foo'' ''abc123'' ex_world_mapped))
       (''glb'', ''item-mappings.json'')
     = Some (MappingJson [(''bar'', ''def456''), (''foo'', ''abc123'')]) \<and>
   map_of (files (processIcons ex_env ''glb/pack'' [(''foo'', ex_nav)] ex_world)) (''glb'', ''slug-uuid-mapping.json'')
     = None \<and>
   map_of (files (saveMapping ex_env (processIcons ex_env ''glb/pack'' [(''foo'', ex_nav)] ex_world)))
       (''glb'', ''slug-uuid-mapping.json'')
     = Some (MappingJson [(''foo'', ''abc123'')])"
proof -
  have g: "axios_get ex_env ''https://cdn.example/x'' = Some ''glTF''"
    by (simp add: ex_env_def)
  have w: "writable ex_env p" for p
    by (simp add: ex_env_def)
  have r: "readMappings ex_env (''glb'', ''item-mappings.json'') ex_world_mapped
             = JObject [(''bar'', ''def456'')]"
    by (simp add: readMappings_def ex_world_mapped_def)
  have n0: "map_of (files ex_world) (''glb'', ''slug-uuid-mapping.json'') = None"
    by (simp add: ex_world_def)
  have m: "slugToUuidMap (processIcon ex_env ''glb/pack'' ''foo'' ex_nav ex_world) = [(''foo'', ''abc123'')]"
    by (simp add: processIcon_first_run)
  have up: "AList.update ''foo'' ''abc123'' [(''bar'', ''def456'')]
              = [(''bar'', ''def456''), (''foo'', ''abc123'')]"
    by simp
  note t = mapping_file_updates [where e = ex_env and u = "''https://cdn.example/x''"
      and data = "''glTF''" and s = "''foo''" and i = "''abc123''" and w = ex_world_mapped
      and m = "[(''bar'', ''def456'')]", unfolded OUTPUT_DIR_def]
  note t' = mapping_file_updates [where e = ex_env and w = ex_world and packDir = "''glb/pack''"
      and icons = "[(''foo'', ex_nav)]", unfolded OUTPUT_DIR_def]
  have a: "map_of (files (downloadGlbFile ex_env ''https://cdn.example/x'' ''foo'' ''abc123'' ex_world_mapped))
       (''glb'', ''item-mappings.json'')
     = Some (MappingJson [(''bar'', ''def456''), (''foo'', ''abc123'')])"
    using t [THEN conjunct1] g w r by (simp add: up)
  have b: "map_of (files (processIcons ex_env ''glb/pack'' [(''foo'', ex_nav)] ex_world)) (''glb'', ''slug-uuid-mapping.json'')
     = None"
    using t' [THEN conjunct2, THEN conjunct1] n0 by simp
  have c: "map_of (files (saveMapping ex_env (processIcons ex_env ''glb/pack'' [(''foo'', ex_nav)] ex_world)))
       (''glb'', ''slug-uuid-mapping.json'')
     = Some (MappingJson [(''foo'', ''abc123'')])"
    using t' [THEN conjunct2, THEN conjunct2] w m by simp
  from a b c show ?thesis by blast
qed

text \<open>
  C6 as stated fails in index.js: after the successful store of \<open>foo\<close> the binary is
  on disk and no mapping file has been written.
\<close>

theorem index_store_leaves_mapping_file_unwritten:
  "files (processIcon ex_env ''glb/pack'' ''foo'' ex_nav ex_world)
     = [((''glb/pack'', ''foo__abc123.glb''), Binary ''glTF'')] \<and>
   map_of (files (processIcon ex_env ''glb/pack'' ''foo'' ex_nav ex_world)) (OUTPUT_DIR, ''slug-uuid-mapping.json'')
     = None"
  by code_simp

section \<open>The content-type gate of find-items.js\<close>

lemma handleResponse_not_accepted:
  "\<not> accepted resp \<Longrightarrow> handleResponse resp c = c"
  by (auto simp: handleResponse_def accepted_def split: option.splits)

lemma other_content_type_not_accepted:
  "r_json resp = Some b \<Longrightarrow> contentType b \<noteq> Some ''model/gltf-binary'' \<Longrightarrow> \<not> accepted resp"
  by (simp add: accepted_def)

lemma handleResponse_accepted:
  assumes "handleResponse resp c \<noteq> c"
  shows "\<exists>b u. r_json resp = Some b \<and> presignedUrl b = Some u \<and> u \<noteq> [] \<and>
           contentType b = Some ''model/gltf-binary''"
proof -
  from assms obtain b where b: "r_json resp = Some b" "truthy (presignedUrl b)"
      "contentType b = Some ''model/gltf-binary''"
    by (auto simp: handleResponse_def split: if_splits option.splits)
  from b(2) obtain u where "presignedUrl b = Some u" "u \<noteq> []"
    by (cases "presignedUrl b") auto
  with b show ?thesis by blast
qed

lemma handleResponses_none_accepted:
  assumes "\<forall>r \<in> set rs. \<not> accepted r"
  shows "handleResponses rs c = c"
  using assms unfolding handleResponses_def
  by (induction rs arbitrary: c) (auto simp: handleResponse_not_accepted)

lemma find_items_nothing_captured:
  assumes "handleResponses (settle_responses n)
             (handleResponses (redirect_responses n) (handleResponses (goto_responses n) None)) = None"
  shows "\<not> fst (downloadGlbFile_find_items e it n w)"
    and "files (snd (downloadGlbFile_find_items e it n w)) = files w"
    and "list_all (\<lambda>ev. \<not> quiet_event ev) (drop (length (trace w)) (trace (snd (downloadGlbFile_find_items e it n w))))"
  using assms
  by (simp_all add: downloadGlbFile_find_items_def Let_def log_event_def page_on_def
        page_removeListener_def)

text \<open>
  C10, as far as it holds. The listener of find-items.js changes the captured URL only
  for a response whose JSON body has a non-empty \<open>presignedUrl\<close> and the content type
  \<open>model/gltf-binary\<close>. A response whose body carries any other content type is not
  accepted and leaves the captured URL as it was, whatever signed URL it holds; an
  accepted response leaves a usable URL captured. When no response of a resolution is
  accepted, whatever else arrives, \<open>downloadGlbFile\<close> returns \<open>false\<close>, fetches
  nothing and writes nothing.
\<close>

theorem content_type_gate:
  "(handleResponse resp c \<noteq> c \<longrightarrow>
      (\<exists>b u. r_json resp = Some b \<and> presignedUrl b = Some u \<and> u \<noteq> [] \<and>
         contentType b = Some ''model/gltf-binary'')) \<and>
   (r_json resp = Some b \<and> contentType b \<noteq> Some ''model/gltf-binary'' \<longrightarrow>
      \<not> accepted resp \<and> handleResponse resp c = c) \<and>
   (accepted resp \<longrightarrow> truthy (handleResponse resp c)) \<and>
   ((\<forall>r \<in> set (goto_responses n @ redirect_responses n @ settle_responses n). \<not> accepted r) \<longrightarrow>
      \<not> fst (downloadGlbFile_find_items e it n w) \<and>
      files (snd (downloadGlbFile_find_items e it n w)) = files w \<and>
      list_all (\<lambda>ev. \<not> quiet_event ev)
        (drop (length (trace w)) (trace (snd (downloadGlbFile_find_items e it n w)))))"
proof (intro conjI impI)
  assume "handleResponse resp c \<noteq> c"
  then show "\<exists>b u. r_json resp = Some b \<and> presignedUrl b = Some u \<and> u \<noteq> [] \<and>
         contentType b = Some ''model/gltf-binary''"
    by (rule handleResponse_accepted)
next
  assume h: "r_json resp = Some b \<and> contentType b \<noteq> Some ''model/gltf-binary''"
  then show na: "\<not> accepted resp"
    using other_content_type_not_accepted by blast
  then show "handleResponse resp c = c"
    by (rule handleResponse_not_accepted)
next
  assume "accepted resp"
  then show "truthy (handleResponse resp c)"
    by (auto simp: accepted_def handleResponse_def split: option.splits)
next
  assume h: "\<forall>r \<in> set (goto_responses n @ redirect_responses n @ settle_responses n). \<not> accepted r"
  then have none: "handleResponses (settle_responses n)
             (handleResponses (redirect_responses n) (handleResponses (goto_responses n) None)) = None"
    by (simp add: handleResponses_none_accepted)
  show "\<not> fst (downloadGlbFile_find_items e it n w)"
    by (rule find_items_nothing_captured(1) [OF none])
  show "files (snd (downloadGlbFile_find_items e it n w)) = files w"
    by (rule find_items_nothing_captured(2) [OF none])
  show "list_all (\<lambda>ev. \<not> quiet_event ev)
        (drop (length (trace w)) (trace (snd (downloadGlbFile_find_items e it n w))))"
    by (rule find_items_nothing_captured(3) [OF none])
qed

theorem content_type_gate_witness:
  "handleResponse ex_resp_json (Some ''https://old.example/y'') = Some ''https://old.example/y'' \<and>
   \<not> accepted ex_resp_json \<and>
   \<not> fst (downloadGlbFile_find_items ex_env ex_item ex_nav_html_json ex_world) \<and>
   files (snd (downloadGlbFile_find_items ex_env ex_item ex_nav_html_json ex_world)) = []"
proof -
  have j: "r_json ex_resp_json = Some \<lparr>presignedUrl = Some ''https://cdn.example/x'',
                                   contentType = Some ''application/json''\<rparr>"
    by (simp add: ex_resp_json_def)
  have ct: "contentType \<lparr>presignedUrl = Some ''https://cdn.example/x'',
                                   contentType = Some ''application/json''\<rparr> \<noteq> Some ''model/gltf-binary''"
    by simp
  have h: "\<not> accepted ex_resp_html"
    by (simp add: accepted_def ex_resp_html_def)
  note t = content_type_gate [where resp = ex_resp_json and c = "Some ''https://old.example/y''"
      and b = "\<lparr>presignedUrl = Some ''https://cdn.example/x'', contentType = Some ''application/json''\<rparr>"
      and n = ex_nav_html_json and e = ex_env and it = ex_item and w = ex_world]
  have a: "\<not> accepted ex_resp_json \<and>
      handleResponse ex_resp_json (Some ''https://old.example/y'') = Some ''https://old.example/y''"
    using t [THEN conjunct2, THEN conjunct1] j ct by simp
  then have all: "\<forall>r \<in> set (goto_responses ex_nav_html_json @ redirect_responses ex_nav_html_json @
        settle_responses ex_nav_html_json). \<not> accepted r"
    using h by (simp add: ex_nav_html_json_def)
  have b: "\<not> fst (downloadGlbFile_find_items ex_env ex_item ex_nav_html_json ex_world) \<and>
      files (snd (downloadGlbFile_find_items ex_env ex_item ex_nav_html_json ex_world)) = files ex_world"
    using t [THEN conjunct2, THEN conjunct2, THEN conjunct2] all by simp
  from a b show ?thesis by (simp add: ex_world_def)
qed

text \<open>
  C10 as stated fails: a response with a signed URL and another content type is
  intercepted, and the item is still downloaded, because a response that is accepted
  arrives in the same resolution.
\<close>

theorem other_content_type_beside_accepted_response:
  "goto_responses ex_nav_both = [ex_resp, ex_resp_json] \<and>
   r_json ex_resp_json = Some \<lparr>presignedUrl = Some ''https://cdn.example/x'',
                                contentType = Some ''application/json''\<rparr> \<and>
   fst (downloadGlbFile_find_items ex_env ex_item ex_nav_both ex_world) \<and>
   files (snd (downloadGlbFile_find_items ex_env ex_item ex_nav_both ex_world))
     = [((''downloads/Pack'', ''foo.glb''), Binary ''glTF'')]"
proof -
  have "fst (downloadGlbFile_find_items ex_env ex_item ex_nav_both ex_world) \<and>
   files (snd (downloadGlbFile_find_items ex_env ex_item ex_nav_both ex_world))
     = [((''downloads/Pack'', ''foo.glb''), Binary ''glTF'')]"
    by code_simp
  then show ?thesis by (simp add: ex_nav_both_def ex_resp_json_def)
qed

section \<open>Union of the extraction heuristics\<close>


lemma add_all_Nil [simp]: "add_all xs [] = xs"
  by (simp add: add_all_def)

lemma add_all_snoc [simp]: "add_all xs (ys @ [y]) = set_add y (add_all xs ys)"
  by (simp add: add_all_def)

lemma add_all_append: "add_all xs (ys @ zs) = add_all (add_all xs ys) zs"
  by (simp add: add_all_def)

lemma set_set_add [simp]: "set (set_add x xs) = insert x (set xs)"
  by (auto simp: set_add_def)

lemma set_add_all [simp]: "set (add_all xs ys) = set xs \<union> set ys"
  by (induction ys rule: rev_induct) auto

lemma distinct_set_add: "distinct xs \<Longrightarrow> distinct (set_add x xs)"
  by (simp add: set_add_def)

lemma distinct_add_all: "distinct xs \<Longrightarrow> distinct (add_all xs ys)"
  by (induction ys rule: rev_induct) (simp_all add: distinct_set_add)

lemma set_add_member: "x \<in> set xs \<Longrightarrow> set_add x xs = xs"
  by (simp add: set_add_def)

lemma add_all_absorb: "add_all xs (add_all [] ys @ zs) = add_all xs (ys @ zs)"
proof -
  have "add_all xs (add_all [] ys) = add_all xs ys"
  proof (induction ys rule: rev_induct)
    case Nil
    show ?case by simp
  next
    case (snoc y ys)
    show ?case
    proof (cases "y \<in> set ys")
      case True
      then show ?thesis using snoc by (simp add: set_add_member)
    next
      case False
      then have "add_all [] (ys @ [y]) = add_all [] ys @ [y]"
        by (simp add: set_add_def)
      then show ?thesis using snoc by simp
    qed
  qed
  then show ?thesis by (simp add: add_all_append)
qed

lemma scanForItemLinks_add_all:
  "scanForItemLinks urls els = add_all urls (item_hrefs els)"
  by (induction els rule: rev_induct) (simp_all add: scanForItemLinks_def item_hrefs_def)

lemma scanAnchorsBelow_add_all:
  "scanAnchorsBelow urls cs
     = add_all urls (concat (map (\<lambda>c. item_hrefs (filter is_anchor (descendants c))) cs))"
proof (induction cs rule: rev_induct)
  case Nil
  show ?case by (simp add: scanAnchorsBelow_def)
next
  case (snoc c cs)
  have "scanAnchorsBelow urls (cs @ [c])
      = scanForItemLinks (scanAnchorsBelow urls cs) (filter is_anchor (descendants c))"
    by (simp add: scanAnchorsBelow_def)
  then show ?case using snoc by (simp add: scanForItemLinks_add_all add_all_append)
qed

lemma getItemUrls_union:
  "getItemUrls pathname doc =
     map (pathname_or_self pathname)
       (add_all [] (direct_anchor_hrefs doc @ component_hrefs doc @ card_hrefs doc @ library_tag_hrefs doc))"
proof -
  let ?i1 = "item_hrefs (filter sel_item_anchor (all_elements doc))"
  let ?i2 = "concat (map (\<lambda>c. item_hrefs (filter is_anchor (descendants c)))
               (filter sel_component (all_elements doc)))"
  let ?i3 = "concat (map (\<lambda>c. item_hrefs (filter is_anchor (descendants c)))
               (filter sel_card (all_elements doc)))"
  let ?i4 = "item_hrefs (filter sel_library (all_elements doc))"
  have code: "getItemUrls pathname doc = map (pathname_or_self pathname) (add_all [] (?i1 @ ?i2 @ ?i3 @ ?i4))"
    by (simp add: getItemUrls_def Let_def scanForItemLinks_add_all scanAnchorsBelow_add_all
        add_all_append)
  have "add_all [] (add_all [] ?i1 @ add_all [] ?i2 @ add_all [] ?i3 @ add_all [] ?i4)
      = add_all [] (?i1 @ add_all [] ?i2 @ add_all [] ?i3 @ add_all [] ?i4)"
    by (rule add_all_absorb)
  also have "\<dots> = add_all (add_all [] ?i1) (add_all [] ?i2 @ add_all [] ?i3 @ add_all [] ?i4)"
    by (simp add: add_all_append)
  also have "\<dots> = add_all (add_all [] ?i1) (?i2 @ add_all [] ?i3 @ add_all [] ?i4)"
    by (rule add_all_absorb)
  also have "\<dots> = add_all (add_all [] (?i1 @ ?i2)) (add_all [] ?i3 @ add_all [] ?i4)"
    by (simp add: add_all_append)
  also have "\<dots> = add_all (add_all [] (?i1 @ ?i2)) (?i3 @ add_all [] ?i4)"
    by (rule add_all_absorb)
  also have "\<dots> = add_all (add_all [] (?i1 @ ?i2 @ ?i3)) (add_all [] ?i4 @ [])"
    by (simp add: add_all_append)
  also have "\<dots> = add_all (add_all [] (?i1 @ ?i2 @ ?i3)) (?i4 @ [])"
    by (rule add_all_absorb)
  also have "\<dots> = add_all [] (?i1 @ ?i2 @ ?i3 @ ?i4)"
    by (simp add: add_all_append)
  finally show ?thesis
    by (simp add: code direct_anchor_hrefs_def component_hrefs_def card_hrefs_def
        library_tag_hrefs_def scanForItemLinks_add_all scanAnchorsBelow_add_all)
qed

text \<open>
  What holds of the union: the references \<open>getItemUrls\<close> returns are what the four
  heuristics find, each run alone. As a set they are the path forms of that union; as a
  list they are the union in order of first discovery, without a repeated href, mapped to
  path form.
\<close>

lemma getItemUrls_union_of_heuristics:
  "set (getItemUrls pathname doc) =
     pathname_or_self pathname `
       (set (direct_anchor_hrefs doc) \<union> set (component_hrefs doc) \<union>
        set (card_hrefs doc) \<union> set (library_tag_hrefs doc)) \<and>
   getItemUrls pathname doc =
     map (pathname_or_self pathname)
       (add_all [] (direct_anchor_hrefs doc @ component_hrefs doc @ card_hrefs doc @ library_tag_hrefs doc)) \<and>
   distinct (add_all [] (direct_anchor_hrefs doc @ component_hrefs doc @ card_hrefs doc @ library_tag_hrefs doc))"
proof -
  have "set (getItemUrls pathname doc) =
     pathname_or_self pathname `
       (set (direct_anchor_hrefs doc) \<union> set (component_hrefs doc) \<union>
        set (card_hrefs doc) \<union> set (library_tag_hrefs doc))"
    by (simp add: getItemUrls_union Un_assoc)
  moreover have "distinct (add_all [] (direct_anchor_hrefs doc @ component_hrefs doc @ card_hrefs doc @ library_tag_hrefs doc))"
    by (simp add: distinct_add_all)
  ultimately show ?thesis using getItemUrls_union by blast
qed

text \<open>
  C7 fails on the code. The set \<open>urls\<close> holds hrefs, and the map to path form comes
  after it (lines 310-317, under the comment \<open>Return unique URLs\<close>): two hrefs with the
  same path both stay in the set, and the path is returned twice. On the example page
  the direct anchor \<open>/item/a\<close> and the card anchor \<open>/item/a?ref=card\<close> give
  \<open>/item/a\<close> two times, so the returned references are not deduplicated.
\<close>

theorem getItemUrls_repeats_path:
  "direct_anchor_hrefs ex_pack_page
     = [''https://pixcap.com/item/a'', ''https://pixcap.com/item/a?ref=card''] \<and>
   card_hrefs ex_pack_page = [''https://pixcap.com/item/a?ref=card''] \<and>
   getItemUrls ex_pathname ex_pack_page = [''/item/a'', ''/item/a'', ''/item/b'', ''/item/c''] \<and>
   \<not> distinct (getItemUrls ex_pathname ex_pack_page)"
  by code_simp

section \<open>Pagination over the catalog\<close>

lemma indexOf_bounds:
  "indexOf xs v = - 1 \<or> (0 \<le> indexOf xs v \<and> indexOf xs v < int (length xs))"
  by (induction xs) (auto simp: Let_def)

lemma indexOf_absent: "v \<notin> set xs \<Longrightarrow> indexOf xs v = - 1"
  by (induction xs) (auto simp: Let_def)

lemma indexOf_present: "v \<in> set xs \<Longrightarrow> 0 \<le> indexOf xs v"
  by (induction xs) (auto simp: Let_def)

lemma indexOf_append:
  "indexOf (xs @ ys) v =
     (if v \<in> set xs then indexOf xs v
      else if indexOf ys v < 0 then - 1 else int (length xs) + indexOf ys v)"
proof (induction xs)
  case Nil
  show ?case using indexOf_bounds [of ys v] by auto
next
  case (Cons x xs)
  show ?case
    using Cons indexOf_present [of v xs] indexOf_bounds [of ys v]
    by (auto simp: Let_def)
qed

lemma uniqueValues_snoc:
  "uniqueValues (xs @ [x]) = uniqueValues xs @ (if x \<in> set xs then [] else [x])"
proof -
  have same: "filter (\<lambda>p. indexOf (xs @ [x]) (snd p) = int (fst p)) (enumerate 0 xs)
      = filter (\<lambda>p. indexOf xs (snd p) = int (fst p)) (enumerate 0 xs)"
  proof (rule filter_cong [OF refl])
    fix p assume "p \<in> set (enumerate 0 xs)"
    then have "snd p \<in> snd ` set (enumerate 0 xs)" by (rule imageI)
    moreover have "set (map snd (enumerate 0 xs)) = set xs" by (simp only: map_snd_enumerate)
    then have "snd ` set (enumerate 0 xs) = set xs" by (simp only: set_map)
    ultimately have "snd p \<in> set xs" by simp
    then show "(indexOf (xs @ [x]) (snd p) = int (fst p)) = (indexOf xs (snd p) = int (fst p))"
      by (simp add: indexOf_append)
  qed
  have last: "(indexOf (xs @ [x]) x = int (length xs)) = (x \<notin> set xs)"
    using indexOf_bounds [of xs x] by (auto simp: indexOf_append)
  show ?thesis
    by (simp add: uniqueValues_def enumerate_append_eq same last)
qed

lemma uniqueValues_add_all: "uniqueValues xs = add_all [] xs"
proof (induction xs rule: rev_induct)
  case Nil
  show ?case by (simp add: uniqueValues_def)
next
  case (snoc x xs)
  then show ?case by (simp add: uniqueValues_snoc set_add_def)
qed

lemma paginate_runs:
  assumes "stops (site (i + k))" and "\<forall>j<k. \<not> stops (site (i + j))"
  shows "paginate pathname site i acc
       = Some (add_all acc (concat (map (\<lambda>j. getPackUrls pathname (document (site j))) [Suc i..<Suc (i + k)])))"
  using assms
proof (induction k arbitrary: i acc)
  case 0
  then show ?case by (subst paginate.simps) (auto simp: stops_def)
next
  case (Suc k)
  from Suc.prems(2) have here: "\<not> stops (site i)" by force
  have s: "stops (site (Suc i + k))" using Suc.prems(1) by simp
  have n: "\<forall>j<k. \<not> stops (site (Suc i + j))"
  proof (intro allI impI)
    fix j assume "j < k"
    then have "Suc j < Suc k" by simp
    with Suc.prems(2) have "\<not> stops (site (i + Suc j))" by blast
    then show "\<not> stops (site (Suc i + j))" by simp
  qed
  have "paginate pathname site i acc
      = paginate pathname site (Suc i) (add_all acc (getPackUrls pathname (document (site (Suc i)))))"
    using here by (subst paginate.simps) (simp add: stops_def)
  also have "\<dots> = Some (add_all (add_all acc (getPackUrls pathname (document (site (Suc i)))))
       (concat (map (\<lambda>j. getPackUrls pathname (document (site j))) [Suc (Suc i)..<Suc (Suc i + k)])))"
    by (rule Suc.IH [OF s n])
  also have "\<dots> = Some (add_all acc (concat (map (\<lambda>j. getPackUrls pathname (document (site j)))
       (Suc i # [Suc (Suc i)..<Suc (Suc i + k)]))))"
    by (simp add: add_all_append)
  also have "Suc i # [Suc (Suc i)..<Suc (Suc i + k)] = [Suc i..<Suc (i + Suc k)]"
    by (simp add: upt_conv_Cons)
  finally show ?case .
qed

lemma paginate_returns_stops:
  assumes ret: "paginate pathname site i acc = Some r"
  shows "\<exists>k. stops (site (i + k))"
proof (rule paginate.raw_induct [where P = "\<lambda>pn st i acc r. \<exists>k. stops (st (i + k))", OF _ ret])
  fix f :: "(string \<Rightarrow> string option) \<Rightarrow> (nat \<Rightarrow> listing) \<Rightarrow> nat \<Rightarrow> string list \<Rightarrow> string list option"
  fix pn st i acc r
  assume IH: "\<And>pn st i acc r. f pn st i acc = Some r \<Longrightarrow> \<exists>k. stops (st (i + k))"
  assume eq: "(if \<not> hasNextPage (document (st i)) then Some acc
      else if \<not> nextPageClicked (document (st i)) then Some acc
      else if \<not> navigated (st i) then Some acc
      else f pn st (Suc i) (add_all acc (getPackUrls pn (document (st (Suc i)))))) = Some r"
  show "\<exists>k. stops (st (i + k))"
  proof (cases "stops (st i)")
    case True
    then have "stops (st (i + 0))" by simp
    then show ?thesis by blast
  next
    case False
    with eq have "f pn st (Suc i) (add_all acc (getPackUrls pn (document (st (Suc i))))) = Some r"
      by (simp add: stops_def)
    from IH [OF this] obtain k where "stops (st (Suc i + k))" by blast
    then have "stops (st (i + Suc k))" by simp
    then show ?thesis by blast
  qed
qed

lemma paginate_never_stops:
  assumes "\<forall>k. \<not> stops (site k)"
  shows "paginate pathname site i acc = None"
proof (cases "paginate pathname site i acc")
  case None
  then show ?thesis .
next
  case (Some r)
  from paginate_returns_stops [OF this] assms show ?thesis by blast
qed

lemma first_page_discovered:
  "add_all (getPackUrls pathname (document (site 0)))
       (concat (map (\<lambda>j. getPackUrls pathname (document (site j))) [Suc 0..<Suc k]))
     = discovered pathname site k"
proof -
  have "getPackUrls pathname (document (site 0)) = add_all [] (getPackUrls pathname (document (site 0)))"
    by (simp add: getPackUrls_def uniqueValues_add_all add_all_absorb [of "[]" _ "[]", simplified])
  then have "add_all (getPackUrls pathname (document (site 0)))
       (concat (map (\<lambda>j. getPackUrls pathname (document (site j))) [Suc 0..<Suc k]))
     = add_all [] (getPackUrls pathname (document (site 0)) @
         concat (map (\<lambda>j. getPackUrls pathname (document (site j))) [Suc 0..<Suc k]))"
    by (simp add: add_all_append)
  also have "getPackUrls pathname (document (site 0)) @
         concat (map (\<lambda>j. getPackUrls pathname (document (site j))) [Suc 0..<Suc k])
      = concat (map (\<lambda>j. getPackUrls pathname (document (site j))) (0 # [Suc 0..<Suc k]))"
    by simp
  also have "0 # [Suc 0..<Suc k] = [0..<Suc k]"
    by (rule upt_conv_Cons [symmetric]) simp
  finally show ?thesis by (simp only: discovered_def)
qed

lemma set_discovered:
  "set (discovered pathname site k) = (\<Union>j\<le>k. set (getPackUrls pathname (document (site j))))"
  by (simp add: discovered_def atLeastLessThanSuc_atLeastAtMost atLeast0AtMost del: upt_Suc)

text \<open>
  C9. When page \<open>k\<close> is the first listing page on which no enabled next control is
  found, the click finds no element, or the navigation wait fails, \<open>collectPackUrls\<close>
  returns the pack paths of the pages up to \<open>k\<close>: each path once, in order of first
  discovery, none dropped. It returns exactly when there is such a page; on a catalog
  whose next control never gives out the loop does not end.
\<close>

theorem catalog_pagination:
  "(stops (site k) \<and> (\<forall>j<k. \<not> stops (site j)) \<longrightarrow>
      collectPackUrls pathname site = Some (discovered pathname site k)) \<and>
   distinct (discovered pathname site k) \<and>
   set (discovered pathname site k) = (\<Union>j\<le>k. set (getPackUrls pathname (document (site j)))) \<and>
   ((collectPackUrls pathname site \<noteq> None) = (\<exists>n. stops (site n)))"
proof -
  have run: "collectPackUrls pathname site = Some (discovered pathname site m)"
    if "stops (site m)" and "\<forall>j<m. \<not> stops (site j)" for m
  proof -
    have h1: "stops (site (0 + m))" using that(1) by simp
    have h2: "\<forall>j<m. \<not> stops (site (0 + j))" using that(2) by simp
    have "paginate pathname site 0 (getPackUrls pathname (document (site 0)))
        = Some (add_all (getPackUrls pathname (document (site 0)))
            (concat (map (\<lambda>j. getPackUrls pathname (document (site j))) [Suc 0..<Suc (0 + m)])))"
      by (rule paginate_runs [OF h1 h2])
    then have "paginate pathname site 0 (getPackUrls pathname (document (site 0)))
        = Some (add_all (getPackUrls pathname (document (site 0)))
            (concat (map (\<lambda>j. getPackUrls pathname (document (site j))) [Suc 0..<Suc m])))"
      by (simp only: add_0)
    then show ?thesis by (simp only: collectPackUrls_def first_page_discovered)
  qed
  have only_if: "\<exists>n. stops (site n)" if "collectPackUrls pathname site \<noteq> None"
    using that paginate_returns_stops [of pathname site 0] by (auto simp: collectPackUrls_def)
  have if_stops: "collectPackUrls pathname site \<noteq> None" if "\<exists>n. stops (site n)"
  proof -
    from that obtain n where n: "stops (site n)" by blast
    define m where "m = (LEAST n. stops (site n))"
    have "stops (site m)" unfolding m_def using n by (rule LeastI)
    moreover have "\<forall>j<m. \<not> stops (site j)"
      unfolding m_def using not_less_Least by blast
    ultimately show ?thesis using run by simp
  qed
  have c1: "stops (site k) \<and> (\<forall>j<k. \<not> stops (site j)) \<longrightarrow>
      collectPackUrls pathname site = Some (discovered pathname site k)"
    using run by blast
  have c2: "distinct (discovered pathname site k)"
    by (simp add: discovered_def distinct_add_all)
  have c3: "set (discovered pathname site k) = (\<Union>j\<le>k. set (getPackUrls pathname (document (site j))))"
    by (rule set_discovered)
  have c4: "(collectPackUrls pathname site \<noteq> None) = (\<exists>n. stops (site n))"
    using only_if if_stops by blast
  show ?thesis
    by (intro conjI) (fact c1, fact c2, fact c3, fact c4)
qed

theorem catalog_pagination_witness:
  "collectPackUrls ex_pathname ex_site
     = Some [''/pack/a'', ''/pack/b'', ''/pack/c'', ''/pack/d'', ''/pack/e'', ''/pack/f'']"
proof -
  have s0: "\<not> stops (ex_site 0)" by code_simp
  have s1: "\<not> stops (ex_site 1)" by code_simp
  have s2: "stops (ex_site 2)" by code_simp
  have before: "\<forall>j<2. \<not> stops (ex_site j)"
  proof (intro allI impI)
    fix j :: nat assume "j < 2"
    then have "j = 0 \<or> j = 1" by arith
    then show "\<not> stops (ex_site j)" using s0 s1 by auto
  qed
  have d: "discovered ex_pathname ex_site 2
     = [''/pack/a'', ''/pack/b'', ''/pack/c'', ''/pack/d'', ''/pack/e'', ''/pack/f'']"
    by code_simp
  from catalog_pagination [of ex_site 2 ex_pathname]
  have "stops (ex_site 2) \<and> (\<forall>j<2. \<not> stops (ex_site j)) \<longrightarrow>
      collectPackUrls ex_pathname ex_site = Some (discovered ex_pathname ex_site 2)"
    by (rule conjunct1)
  with s2 before d show ?thesis by simp
qed

section \<open>Slug extraction from a pack page\<close>

text \<open>
  C8, as far as it holds. The extraction for the packs found on the listing page takes
  the slugs of the embedded state and, only when that list is empty, the slugs of the
  anchors with a \<open>slug=\<close> parameter: it never looks at images. The extraction for the
  hardcoded packs never reads the embedded state: it takes the anchors with a
  \<open>slug=\<close> parameter when there is such an anchor, otherwise the elements with a
  \<open>data-slug\<close> or \<open>data-icon-slug\<close> attribute when there is one, otherwise the images.
\<close>

theorem slug_extraction_fallbacks:
  "iconSlugs ev doc =
     (if blobSlugs ev doc \<noteq> [] then blobSlugs ev doc
      else linkSlugs (filter sel_create_link (all_elements doc))) \<and>
   iconSlugs_hardcoded doc =
     (if filter sel_create_link (all_elements doc) \<noteq> []
      then linkSlugs (filter sel_create_link (all_elements doc))
      else if filter sel_slug_card (all_elements doc) \<noteq> []
      then cardSlugs (filter sel_slug_card (all_elements doc))
      else imageSlugs (filter sel_icon_image (all_elements doc)))"
  by (simp add: iconSlugs_def iconSlugs_hardcoded_def Let_def)

theorem slug_extraction_fallbacks_witness:
  "iconSlugs ex_eval ex_blob_page = [Some ''rocket''] \<and>
   iconSlugs_hardcoded ex_image_page = [Some ''rocket'']"
proof -
  have b: "blobSlugs ex_eval ex_blob_page = [Some ''rocket'']" by code_simp
  have l: "filter sel_create_link (all_elements ex_image_page) = []" by code_simp
  have c: "filter sel_slug_card (all_elements ex_image_page) = []" by code_simp
  have i: "imageSlugs (filter sel_icon_image (all_elements ex_image_page)) = [Some ''rocket'']"
    by code_simp
  show ?thesis
    using slug_extraction_fallbacks [of ex_eval ex_blob_page]
      slug_extraction_fallbacks [of ex_eval ex_image_page]
    by (simp add: b l c i)
qed

text \<open>
  C8 as stated fails on both extractions. On a page with nothing but an icon image the
  first one returns nothing where the layered fallback reaches the image; on a page
  with nothing but the embedded state the second one returns nothing where the layered
  fallback starts from that state.
\<close>

theorem slug_extraction_not_layered:
  "spec_layered_slugs ex_eval ex_image_page = [Some ''rocket''] \<and>
   iconSlugs ex_eval ex_image_page = [] \<and>
   spec_layered_slugs ex_eval ex_blob_page = [Some ''rocket''] \<and>
   iconSlugs_hardcoded ex_blob_page = []"
  by code_simp

end
